theory Spec2Isabelle
  imports Complex_Main "HOL-Library.Sublist" "HOL-Library.AList" "HOL-Library.Char_ord"
    "HOL-Library.List_Lexorder"
begin

chapter \<open>The classifier\<close>

section \<open>Errors and numpy arrays\<close>

text \<open>
  Every exception the classifier can raise is a value. \<open>NotOrdered expected actual\<close> is the
  \<open>ValueError\<close> of \<open>fit\<close> whose message is
  "`y` is wrong! Labels of classes are not ordered. Expected a `expected`, but got a `actual`.";
  \<open>TooFewClasses\<close> is the \<open>ValueError\<close> of \<open>check_Xy\<close>
  "There are too few classes"; \<open>LengthMismatch\<close> is its length error.
  \<open>ValueError\<close> stands for a \<open>ValueError\<close> raised inside numpy (shape or dimension
  mismatch, negative dimension) or by a parameter check.
\<close>

datatype error =
    ValueError
  | IndexError
  | ZeroDivisionError
  | NotFittedError
  | FileNotFoundError
  | NotOrdered "int list" "int list"
  | TooFewClasses
  | LengthMismatch nat nat
  | NoLabeledSamples
  | TrainingError
  | AssertionError
  | AttributeError
  | KeyError

text \<open>
  A numpy array of integers, with its shape: \<open>Arr1 xs\<close> has shape \<open>(length xs,)\<close>,
  \<open>Arr2 c rows\<close> has shape \<open>(length rows, c)\<close>.
\<close>

datatype ndarray = Arr1 "int list" | Arr2 nat "int list list"

fun shape0 :: "ndarray \<Rightarrow> nat" where
  "shape0 (Arr1 xs) = length xs"
| "shape0 (Arr2 c rows) = length rows"

text \<open>\<open>a[-1]\<close>: the last item along the first axis; \<open>IndexError\<close> on an empty array.\<close>

datatype item = Scalar int | Row "int list"

fun last_item :: "ndarray \<Rightarrow> error + item" where
  "last_item (Arr1 xs) = (if xs = [] then Inl IndexError else Inr (Scalar (last xs)))"
| "last_item (Arr2 c rows) = (if rows = [] then Inl IndexError else Inr (Row (last rows)))"

text \<open>
  \<open>np.full(shape=(n, l), fill_value=v)\<close>: a negative dimension raises; a scalar fills the
  whole array; a 1-D fill value is broadcast along the rows when its length is \<open>l\<close> or 1
  and raises otherwise.
\<close>

fun np_full :: "int \<Rightarrow> nat \<Rightarrow> item \<Rightarrow> error + ndarray" where
  "np_full n l (Scalar v) =
     (if n < 0 then Inl ValueError else Inr (Arr2 l (replicate (nat n) (replicate l v))))"
| "np_full n l (Row r) =
     (if n < 0 then Inl ValueError
      else if length r = l then Inr (Arr2 l (replicate (nat n) r))
      else if length r = 1 then Inr (Arr2 l (replicate (nat n) (replicate l (hd r))))
      else Inl ValueError)"

text \<open>
  \<open>np.concatenate((a, b))\<close> along axis 0: the arrays must have the same number of
  dimensions and, for two dimensions, the same number of columns.
\<close>

fun np_concatenate :: "ndarray \<Rightarrow> ndarray \<Rightarrow> error + ndarray" where
  "np_concatenate (Arr1 xs) (Arr1 ys) = Inr (Arr1 (xs @ ys))"
| "np_concatenate (Arr2 c rows) (Arr2 c' rows') =
     (if c = c' then Inr (Arr2 c (rows @ rows')) else Inl ValueError)"
| "np_concatenate (Arr1 xs) (Arr2 c' rows') = Inl ValueError"
| "np_concatenate (Arr2 c rows) (Arr1 ys) = Inl ValueError"

text \<open>\<open>a[indices]\<close>: integer-array indexing along the first axis.\<close>

fun take_rows :: "ndarray \<Rightarrow> nat list \<Rightarrow> error + ndarray" where
  "take_rows (Arr1 xs) idx =
     (if \<forall>i \<in> set idx. i < length xs then Inr (Arr1 (map (\<lambda>i. xs ! i) idx)) else Inl IndexError)"
| "take_rows (Arr2 c rows) idx =
     (if \<forall>i \<in> set idx. i < length rows then Inr (Arr2 c (map (\<lambda>i. rows ! i) idx))
      else Inl IndexError)"

text \<open>Running a fallible function over a list stops at the first error.\<close>

fun mapM :: "('a \<Rightarrow> error + 'b) \<Rightarrow> 'a list \<Rightarrow> error + 'b list" where
  "mapM f [] = Inr []"
| "mapM f (x # xs) =
     (case f x of Inl e \<Rightarrow> Inl e
      | Inr y \<Rightarrow> (case mapM f xs of Inl e \<Rightarrow> Inl e | Inr ys \<Rightarrow> Inr (y # ys)))"

section \<open>Batch partitioner: \<open>extend_Xy\<close>\<close>

definition MAX_SEQ_LENGTH :: nat where
  "MAX_SEQ_LENGTH = 512"

text \<open>
  One channel of \<open>X_ext\<close>:
  \<open>np.concatenate((X[idx], np.full(shape=(n_extend, MAX_SEQ_LENGTH), fill_value=X[idx][-1])))\<close>.
\<close>

definition extend_channel :: "int \<Rightarrow> ndarray \<Rightarrow> error + ndarray" where
  "extend_channel n_extend a =
     (case last_item a of Inl e \<Rightarrow> Inl e
      | Inr v \<Rightarrow> (case np_full n_extend MAX_SEQ_LENGTH v of Inl e \<Rightarrow> Inl e
                 | Inr pad \<Rightarrow> np_concatenate a pad))"

text \<open>
  \<open>extend_Xy(X, y, shuffle)\<close> for batch size \<open>bs\<close>. \<open>X\<close> is the list of channels, \<open>y\<close>
  the optional label vector. \<open>rng\<close> is the permutation that \<open>np.random.shuffle\<close> applies to
  \<open>arange(n)\<close>. The result is the pair of the channels and the optional labels
  (the source returns the channels alone when \<open>y\<close> is \<open>None\<close>).
  As in the source, the branch with labels builds the padding of \<open>y\<close> with the
  two-dimensional shape \<open>(n_extend, MAX_SEQ_LENGTH)\<close>, and its shuffle indexes with the
  unshuffled \<open>arange\<close>.
\<close>

definition extend_Xy ::
  "int \<Rightarrow> (nat \<Rightarrow> nat list) \<Rightarrow> ndarray list \<Rightarrow> ndarray option \<Rightarrow> bool
     \<Rightarrow> error + (ndarray list \<times> ndarray option)" where
  "extend_Xy bs rng X y shuffle =
     (case X of [] \<Rightarrow> Inl IndexError
      | X0 # _ \<Rightarrow>
        let n_samples = int (shape0 X0) in
        if bs = 0 then Inl ZeroDivisionError
        else
          let n_extend = n_samples mod bs in
          if n_extend = 0 then Inr (X, y)
          else
            let n_extend = bs - n_extend in
            (case mapM (extend_channel n_extend) X of Inl e \<Rightarrow> Inl e
             | Inr X_ext \<Rightarrow>
               (case y of
                  None \<Rightarrow>
                    if shuffle then
                      (let indices = rng (nat (n_samples + n_extend)) in
                       case mapM (\<lambda>a. take_rows a indices) X_ext of Inl e \<Rightarrow> Inl e
                       | Inr Xs \<Rightarrow> Inr (Xs, None))
                    else Inr (X_ext, None)
                | Some yv \<Rightarrow>
                    (case last_item yv of Inl e \<Rightarrow> Inl e
                     | Inr v \<Rightarrow>
                       (case np_full n_extend MAX_SEQ_LENGTH v of Inl e \<Rightarrow> Inl e
                        | Inr pad \<Rightarrow>
                          (case np_concatenate yv pad of Inl e \<Rightarrow> Inl e
                           | Inr y_ext \<Rightarrow>
                             if shuffle then
                               (let indices = upt 0 (nat (n_samples + n_extend)) in
                                case mapM (\<lambda>a. take_rows a indices) X_ext of Inl e \<Rightarrow> Inl e
                                | Inr Xs \<Rightarrow>
                                  (case take_rows y_ext indices of Inl e \<Rightarrow> Inl e
                                   | Inr ys \<Rightarrow> Inr (Xs, Some ys)))
                             else Inr (X_ext, Some y_ext)))))))"

section \<open>The estimator and its parameters\<close>

text \<open>
  The BERT tokenizer is an external collaborator: \<open>tokenize\<close> splits a text into
  word pieces and \<open>convert_token_to_id\<close> looks one piece up in the vocabulary.
\<close>

record tokenizer =
  tokenize :: "string \<Rightarrow> string list"
  convert_token_to_id :: "string \<Rightarrow> int"

text \<open>
  The estimator. The constructor parameters are always present; the attributes that
  \<open>fit\<close> or \<open>load_all\<close> creates are optional (\<open>None\<close> is "the object has no such
  attribute"). \<open>build_model\<close> creates \<open>sess_\<close>, \<open>input_ids_\<close>, \<open>input_mask_\<close>,
  \<open>segment_ids_\<close>, \<open>y_ph_\<close>, \<open>logits_\<close> and \<open>labels_distribution_\<close> together and
  \<open>finalize_model\<close> deletes them together, so the one field \<open>sess_\<close> stands for all seven:
  it holds the values of the variables of the session, of type \<open>'w\<close>.
  A field \<open>a'\<close> is the attribute \<open>a_\<close> of the source.
\<close>

record 'w classifier =
  batch_size :: int
  hidden_layer_sizes :: "int list"
  bert_hub_module_handle :: "string option"
  max_epochs :: int
  num_monte_carlo :: int
  patience :: int
  random_seed :: "int option"
  gpu_memory_frac :: real
  validation_fraction :: real
  verbose :: bool
  n_classes' :: "nat option"
  tokenizer' :: "tokenizer option"
  sess' :: "'w option"
  certainty_threshold' :: "real option"

text \<open>
  \<open>check_params\<close> on the parameters of an estimator. The types of the record discharge
  the \<open>isinstance\<close> checks; the checks on the values remain, in the order of the source.
\<close>

definition check_params :: "('w, 'a) classifier_scheme \<Rightarrow> error + unit" where
  "check_params c =
     (if batch_size c < 1 then Inl ValueError
      else if (case bert_hub_module_handle c of None \<Rightarrow> False | Some h \<Rightarrow> length h < 1)
        then Inl ValueError
      else if max_epochs c < 1 then Inl ValueError
      else if num_monte_carlo c < 1 then Inl ValueError
      else if patience c < 1 then Inl ValueError
      else if gpu_memory_frac c \<le> 0 \<or> gpu_memory_frac c > 1 then Inl ValueError
      else if validation_fraction c < 0 then Inl ValueError
      else if validation_fraction c \<ge> 1 then Inl ValueError
      else if length (hidden_layer_sizes c) < 1 then Inl ValueError
      else if \<exists>layer_size \<in> set (hidden_layer_sizes c). layer_size \<le> 0 then Inl ValueError
      else Inr ())"

text \<open>\<open>is_fitted\<close>: \<open>check_is_fitted\<close> raises when one of the listed attributes is missing.\<close>

definition is_fitted :: "('w, 'a) classifier_scheme \<Rightarrow> error + unit" where
  "is_fitted c =
     (if n_classes' c \<noteq> None \<and> tokenizer' c \<noteq> None \<and> sess' c \<noteq> None
         \<and> certainty_threshold' c \<noteq> None
      then Inr () else Inl NotFittedError)"

section \<open>Tokenization adapter\<close>

text \<open>
  One text of \<open>tokenize_all\<close>: the word pieces are cut to \<open>MAX_SEQ_LENGTH - 2\<close>, framed by
  \<open>[CLS]\<close> and \<open>[SEP]\<close> and converted; the row of token ids and the row of the mask are
  written into rows of zeros of length \<open>MAX_SEQ_LENGTH\<close>, and the segment ids stay zero.
\<close>

definition tokenize_one :: "tokenizer \<Rightarrow> string \<Rightarrow> int list \<times> int list \<times> int list" where
  "tokenize_one tok source_text =
     (let tokenized_text = tokenize tok source_text;
          tokenized_text = (if length tokenized_text > MAX_SEQ_LENGTH - 2
                            then take (MAX_SEQ_LENGTH - 2) tokenized_text else tokenized_text);
          tokenized_text = [''[CLS]''] @ tokenized_text @ [''[SEP]''];
          token_IDs = map (convert_token_to_id tok) tokenized_text
      in (token_IDs @ replicate (MAX_SEQ_LENGTH - length token_IDs) 0,
          replicate (length token_IDs) 1 @ replicate (MAX_SEQ_LENGTH - length token_IDs) 0,
          replicate MAX_SEQ_LENGTH 0))"

text \<open>\<open>tokenize_all(X)\<close> without labels: the three channels.\<close>

definition tokenize_all :: "tokenizer \<Rightarrow> string list \<Rightarrow> ndarray list" where
  "tokenize_all tok X =
     (let rows = map (tokenize_one tok) X
      in [Arr2 MAX_SEQ_LENGTH (map fst rows),
          Arr2 MAX_SEQ_LENGTH (map (fst \<circ> snd) rows),
          Arr2 MAX_SEQ_LENGTH (map (snd \<circ> snd) rows)])"

text \<open>
  The shape of a tokenized data set: three channels of \<open>n\<close> rows with
  \<open>MAX_SEQ_LENGTH\<close> entries each.
\<close>

definition channels_ok :: "nat \<Rightarrow> ndarray list \<Rightarrow> bool" where
  "channels_ok n X \<longleftrightarrow>
     (\<exists>r0 r1 r2. X = [Arr2 MAX_SEQ_LENGTH r0, Arr2 MAX_SEQ_LENGTH r1, Arr2 MAX_SEQ_LENGTH r2]
        \<and> length r0 = n \<and> length r1 = n \<and> length r2 = n
        \<and> (\<forall>row \<in> set (r0 @ r1 @ r2). length row = MAX_SEQ_LENGTH))"

section \<open>Monte-Carlo predictor\<close>

text \<open>\<open>a[lo:hi]\<close> along the first axis.\<close>

fun slice_rows :: "nat \<Rightarrow> nat \<Rightarrow> ndarray \<Rightarrow> ndarray" where
  "slice_rows lo hi (Arr1 xs) = Arr1 (take (hi - lo) (drop lo xs))"
| "slice_rows lo hi (Arr2 c rows) = Arr2 c (take (hi - lo) (drop lo rows))"

text \<open>
  \<open>fill_feed_dict(X)\<close>: asserts three channels and a first channel of exactly
  \<open>batch_size\<close> rows; the feed dictionary is the list of the three channels.
\<close>

definition fill_feed_dict :: "int \<Rightarrow> ndarray list \<Rightarrow> error + ndarray list" where
  "fill_feed_dict bs X =
     (if length X \<noteq> 3 then Inl AssertionError
      else if int (shape0 (hd X)) \<noteq> bs then Inl AssertionError
      else Inr X)"

text \<open>
  The network is an external collaborator. \<open>net w k feed\<close> is the value of
  \<open>labels_distribution_.probs\<close> that the \<open>k\<close>-th \<open>sess_.run\<close> returns for the variables \<open>w\<close>
  and the feed dictionary \<open>feed\<close>: one row of class probabilities for each sample of the
  batch. The index \<open>k\<close> stands for the weights that the Flipout layers draw anew in every run.
\<close>

type_synonym 'w network = "'w \<Rightarrow> nat \<Rightarrow> ndarray list \<Rightarrow> real list list"

text \<open>\<open>np.mean(probs, axis=0)\<close> over the \<open>m\<close> runs of one batch.\<close>

definition mean_probs :: "'w network \<Rightarrow> 'w \<Rightarrow> nat \<Rightarrow> nat \<Rightarrow> nat \<Rightarrow> ndarray list \<Rightarrow> real list list" where
  "mean_probs net w m bs ncls feed =
     map (\<lambda>i. map (\<lambda>j. (\<Sum>k \<leftarrow> [0..<m]. net w k feed ! i ! j) / real m) [0..<ncls]) [0..<bs]"

text \<open>
  Storing a floating-point value into an array of \<open>dtype=np.int32\<close> truncates it towards
  zero (the values stored here are means of probabilities, far from the bounds of int32).
\<close>

definition to_int32 :: "real \<Rightarrow> int" where
  "to_int32 x = (if x \<ge> 0 then \<lfloor>x\<rfloor> else \<lceil>x\<rceil>)"

text \<open>
  The loop of \<open>predict_proba\<close> over the batches: \<open>probabilities[lo:hi] = np.mean(probs, axis=0)\<close>
  where \<open>probabilities\<close> was created by \<open>np.zeros(..., dtype=np.int32)\<close>.
\<close>

fun predict_batches ::
  "'w network \<Rightarrow> 'w \<Rightarrow> nat \<Rightarrow> nat \<Rightarrow> nat \<Rightarrow> ndarray list \<Rightarrow> (nat \<times> nat) list
     \<Rightarrow> int list list \<Rightarrow> error + int list list" where
  "predict_batches net w m bs ncls X [] probabilities = Inr probabilities"
| "predict_batches net w m bs ncls X ((lo, hi) # bounds) probabilities =
     (case fill_feed_dict (int bs) (map (slice_rows lo hi) X) of Inl e \<Rightarrow> Inl e
      | Inr feed \<Rightarrow>
          predict_batches net w m bs ncls X bounds
            (take lo probabilities
              @ map (map to_int32) (mean_probs net w m bs ncls feed)
              @ drop hi probabilities))"

definition predict_proba ::
  "'w network \<Rightarrow> (nat \<Rightarrow> nat list) \<Rightarrow> ('w, 'a) classifier_scheme \<Rightarrow> string list
     \<Rightarrow> error + int list list" where
  "predict_proba net rng c X =
     (case check_params c of Inl e \<Rightarrow> Inl e
      | Inr _ \<Rightarrow>
     (case is_fitted c of Inl e \<Rightarrow> Inl e
      | Inr _ \<Rightarrow>
     (case (tokenizer' c, n_classes' c, sess' c) of
        (Some tok, Some ncls, Some w) \<Rightarrow>
          let X_tokenized = tokenize_all tok X;
              n_samples = shape0 (hd X_tokenized) in
          (case extend_Xy (batch_size c) rng X_tokenized None False of Inl e \<Rightarrow> Inl e
           | Inr (X_tokenized, _) \<Rightarrow>
               let bs = nat (batch_size c);
                   n_batches = shape0 (hd X_tokenized) div bs;
                   bounds_of_batches = map (\<lambda>iteration. (iteration * bs, iteration * bs + bs))
                                           [0..<n_batches];
                   probabilities = replicate (shape0 (hd X_tokenized)) (replicate ncls 0)
               in (case predict_batches net w (nat (num_monte_carlo c)) bs ncls X_tokenized
                          bounds_of_batches probabilities of Inl e \<Rightarrow> Inl e
                   | Inr probabilities \<Rightarrow> Inr (take n_samples probabilities)))
      | _ \<Rightarrow> Inl AttributeError)))"

section \<open>\<open>predict\<close>\<close>

text \<open>\<open>argmax\<close>: the index of the first maximum (numpy raises on an empty row).\<close>

fun argmax :: "int list \<Rightarrow> nat" where
  "argmax [] = 0"
| "argmax (x # xs) = (if \<forall>y \<in> set xs. y \<le> x then 0 else Suc (argmax xs))"

text \<open>
  The body of \<open>predict\<close> once \<open>predict_proba\<close> has returned: the first maximum of each row,
  replaced by \<open>-1\<close> where the entry there is below the certainty threshold.
\<close>

definition recognize :: "real \<Rightarrow> int list list \<Rightarrow> error + int list" where
  "recognize threshold probabilities =
     (if \<exists>row \<in> set probabilities. row = [] then Inl ValueError
      else Inr (map (\<lambda>row. if real_of_int (row ! argmax row) < threshold then - 1
                           else int (argmax row)) probabilities))"

definition predict ::
  "'w network \<Rightarrow> (nat \<Rightarrow> nat list) \<Rightarrow> ('w, 'a) classifier_scheme \<Rightarrow> string list
     \<Rightarrow> error + int list" where
  "predict net rng c X =
     (case predict_proba net rng c X of Inl e \<Rightarrow> Inl e
      | Inr probabilities \<Rightarrow>
          (case certainty_threshold' c of None \<Rightarrow> Inl AttributeError
           | Some threshold \<Rightarrow> recognize threshold probabilities))"

section \<open>Validation of the labels\<close>

text \<open>
  \<open>check_Xy(X, X_name, y, y_name)\<close> for texts and integer labels. The types discharge
  the checks of \<open>check_X\<close> and the checks for \<open>None\<close> and non-integral labels; the length
  check and the count of the classes remain. The result is the sorted list of the distinct
  non-negative labels.
\<close>

definition check_Xy :: "string list \<Rightarrow> int list \<Rightarrow> error + int list" where
  "check_Xy X y =
     (let n = length y in
      if n \<noteq> length X then Inl (LengthMismatch (length X) (length y))
      else
        let classes_list = remdups (filter (\<lambda>class_idx. class_idx \<ge> 0) y) in
        if length classes_list < 2 then Inl TooFewClasses
        else Inr (sort classes_list))"

text \<open>
  The first statements of \<open>fit\<close>: the labels are checked, the classes must start at 0 and
  end at their count minus one, and \<open>n_classes_\<close> is their count (the result).
\<close>

definition fit_check_classes :: "string list \<Rightarrow> int list \<Rightarrow> error + nat" where
  "fit_check_classes X y =
     (case check_Xy X y of Inl e \<Rightarrow> Inl e
      | Inr classes_in_dataset \<Rightarrow>
          if hd classes_in_dataset \<noteq> 0
             \<or> last classes_in_dataset \<noteq> int (length classes_in_dataset) - 1
          then Inl (NotOrdered (map int [0..<length classes_in_dataset]) classes_in_dataset)
          else Inr (length classes_in_dataset))"

section \<open>Floating-point numbers\<close>

text \<open>
  The calibration works on floating-point numbers: the confidences are \<open>float32\<close> values
  and the threshold is a Python \<open>float\<close> (\<open>float64\<close>). A floating-point number is
  modelled by the real number it stands for, and an operation rounds its exact result to
  the nearest number with \<open>p\<close> significant bits, ties to the even one (IEEE 754, \<open>p = 24\<close>
  for \<open>float32\<close> and \<open>p = 53\<close> for \<open>float64\<close>). The model covers the normal range only:
  no overflow, subnormal numbers, infinities or NaN, as the values of the calibration lie
  between \<open>2^-10\<close> and 2.
\<close>

text \<open>\<open>ilog2 n x\<close> is the binary exponent \<open>floor (log2 x)\<close> of a positive \<open>x\<close>, found in at most \<open>n\<close> steps.\<close>

fun ilog2 :: "nat \<Rightarrow> real \<Rightarrow> int" where
  "ilog2 0 x = 0"
| "ilog2 (Suc n) x =
     (if x < 1 then ilog2 n (2 * x) - 1 else if 2 \<le> x then ilog2 n (x / 2) + 1 else 0)"

definition round_to :: "nat \<Rightarrow> real \<Rightarrow> real" where
  "round_to p x =
     (if x \<le> 0 then x
      else
        let e = ilog2 1100 x - (int p - 1);
            u = (if 0 \<le> e then 2 ^ nat e else 1 / 2 ^ nat (- e));
            q = x / u;
            f = \<lfloor>q\<rfloor>;
            r = q - of_int f;
            n = (if r < 1 / 2 then f else if 1 / 2 < r then f + 1
                 else if even f then f else f + 1)
        in of_int n * u)"

definition f32 :: "real \<Rightarrow> real" where
  "f32 x = round_to 24 x"

definition f64 :: "real \<Rightarrow> real" where
  "f64 x = round_to 53 x"

text \<open>The literal \<open>1e-3\<close>: the \<open>float64\<close> number nearest to one thousandth.\<close>

definition c1e3 :: real where
  "c1e3 = f64 (1 / 1000)"

section \<open>Certainty threshold calibrator\<close>

text \<open>
  \<open>np.mean(probs, axis=0)\<close> followed by \<open>mean_probs.max(axis=-1)\<close> for one batch: the top
  Monte-Carlo-averaged class probability of each sample. \<open>np_mean\<close> is the mean that numpy
  computes, in \<open>float32\<close>, of the \<open>m\<close> values that the runs return for one sample and one
  class; it is a parameter, as the network is.
\<close>

definition top_probs ::
  "(real list \<Rightarrow> real) \<Rightarrow> 'w network \<Rightarrow> 'w \<Rightarrow> nat \<Rightarrow> nat \<Rightarrow> nat \<Rightarrow> ndarray list \<Rightarrow> real list" where
  "top_probs np_mean net w m bs ncls feed =
     map (\<lambda>i. Max (set (map (\<lambda>j. np_mean (map (\<lambda>k. net w k feed ! i ! j) [0..<m])) [0..<ncls])))
         [0..<bs]"

text \<open>
  The loops of \<open>fit\<close> that fill \<open>probabilities_for_labeled_samples\<close> and
  \<open>probabilities_for_another_samples\<close>: for each batch,
  \<open>probabilities[lo:hi] = mean_probs.max(axis=-1)\<close>. The maximum of a row without classes
  raises in numpy.
\<close>

fun confidence_batches ::
  "(real list \<Rightarrow> real) \<Rightarrow> 'w network \<Rightarrow> 'w \<Rightarrow> nat \<Rightarrow> nat \<Rightarrow> nat \<Rightarrow> ndarray list
     \<Rightarrow> (nat \<times> nat) list \<Rightarrow> real list \<Rightarrow> error + real list" where
  "confidence_batches np_mean net w m bs ncls X [] probabilities = Inr probabilities"
| "confidence_batches np_mean net w m bs ncls X ((lo, hi) # bounds) probabilities =
     (case fill_feed_dict (int bs) (map (slice_rows lo hi) X) of Inl e \<Rightarrow> Inl e
      | Inr feed \<Rightarrow>
          if ncls = 0 then Inl ValueError
          else confidence_batches np_mean net w m bs ncls X bounds
                 (take lo probabilities @ top_probs np_mean net w m bs ncls feed
                    @ drop hi probabilities))"

text \<open>
  The bounds of the batches of an array of \<open>n\<close> rows, as \<open>fit\<close> computes them:
  \<open>ceil(n / batch_size)\<close> batches \<open>(start, min(start + batch_size, n))\<close>.
\<close>

definition bounds_of_batches :: "nat \<Rightarrow> nat \<Rightarrow> (nat \<times> nat) list" where
  "bounds_of_batches n bs =
     map (\<lambda>iteration. (iteration * bs, min (iteration * bs + bs) n)) [0..<(n + bs - 1) div bs]"

text \<open>
  \<open>f1_score(y_true, y_pred)\<close> of scikit-learn for the positive class 1: with the counts of
  true positives, false positives and false negatives, \<open>2 tp / (2 tp + fp + fn)\<close>, and 0
  when that is undefined.
\<close>

definition f1_score :: "int list \<Rightarrow> bool list \<Rightarrow> real" where
  "f1_score y_true y_pred =
     (let tp = length (filter (\<lambda>(t, p). t = 1 \<and> p) (zip y_true y_pred));
          fp = length (filter (\<lambda>(t, p). t \<noteq> 1 \<and> p) (zip y_true y_pred));
          fn = length (filter (\<lambda>(t, p). t = 1 \<and> \<not> p) (zip y_true y_pred))
      in if 2 * tp + fp + fn = 0 then 0 else real (2 * tp) / real (2 * tp + fp + fn))"

text \<open>
  The \<open>while threshold < 1.0\<close> loop of \<open>fit\<close>: \<open>f\<close> is the F1 score as a function of the
  threshold; the state is \<open>threshold\<close>, \<open>best_f1\<close> and \<open>best_threshold\<close>, and the result
  is the final \<open>best_threshold\<close>. \<open>threshold += 1e-3\<close> is an addition of \<open>float64\<close> numbers.
  The value \<open>None\<close> stands for a loop that does not end.
\<close>

partial_function (option) sweep :: "(real \<Rightarrow> real) \<Rightarrow> real \<Rightarrow> real \<Rightarrow> real \<Rightarrow> real option" where
  "sweep f threshold best_f1 best_threshold =
     (if threshold < 1 then
        (let f1 = f threshold in
         if f1 > best_f1 then sweep f (f64 (threshold + c1e3)) f1 threshold
         else sweep f (f64 (threshold + c1e3)) best_f1 best_threshold)
      else Some best_threshold)"

text \<open>
  The end of \<open>fit\<close>: from the confidences of the labeled samples and, when there are
  unlabeled samples, theirs, the value stored in \<open>certainty_threshold_\<close>. \<open>f1\<close> is the
  function \<open>f1_score\<close> of scikit-learn. \<open>probabilities >= threshold\<close> compares an array of
  \<open>float32\<close> numbers with a Python \<open>float\<close>, which numpy converts to \<open>float32\<close> first.
  \<open>min()\<close> of an empty array raises.
\<close>

definition certainty_threshold ::
  "(int list \<Rightarrow> bool list \<Rightarrow> real) \<Rightarrow> real list \<Rightarrow> real list option \<Rightarrow> (error + real) option" where
  "certainty_threshold f1 probabilities_for_labeled_samples probabilities_for_another_samples =
     (case probabilities_for_another_samples of
        None \<Rightarrow>
          if probabilities_for_labeled_samples = [] then Some (Inl ValueError)
          else Some (Inr (Min (set probabilities_for_labeled_samples)))
      | Some another \<Rightarrow>
          let y_true = replicate (length probabilities_for_labeled_samples) 1
                         @ replicate (length another) 0;
              probabilities = probabilities_for_labeled_samples @ another;
              f = (\<lambda>threshold. f1 y_true (map (\<lambda>p. p \<ge> f32 threshold) probabilities));
              best_threshold = c1e3;
              best_f1 = f best_threshold;
              threshold = f64 (best_threshold + c1e3)
          in map_option Inr (sweep f threshold best_f1 best_threshold))"

text \<open>
  The calibration at the end of \<open>fit\<close>. \<open>X_eval\<close> is the padded labeled evaluation set
  (the validation set when there is one, the training set otherwise) with the bounds of its
  batches, in the order in which \<open>fit\<close> holds them; \<open>X_unlabeled\<close> is the padded set of
  the unlabeled samples, if any.
\<close>

definition calibrate ::
  "(real list \<Rightarrow> real) \<Rightarrow> (int list \<Rightarrow> bool list \<Rightarrow> real) \<Rightarrow> 'w network \<Rightarrow> 'w \<Rightarrow> nat \<Rightarrow> nat
     \<Rightarrow> nat \<Rightarrow> ndarray list \<Rightarrow> (nat \<times> nat) list \<Rightarrow> ndarray list option
     \<Rightarrow> (error + real) option" where
  "calibrate np_mean f1 net w m bs ncls X_eval bounds X_unlabeled =
     (case confidence_batches np_mean net w m bs ncls X_eval bounds
             (replicate (shape0 (hd X_eval)) 0) of Inl e \<Rightarrow> Some (Inl e)
      | Inr probabilities_for_labeled_samples \<Rightarrow>
          (case X_unlabeled of
             None \<Rightarrow> certainty_threshold f1 probabilities_for_labeled_samples None
           | Some Xu \<Rightarrow>
               (case confidence_batches np_mean net w m bs ncls Xu
                       (bounds_of_batches (shape0 (hd Xu)) bs)
                       (replicate (shape0 (hd Xu)) 0) of Inl e \<Rightarrow> Some (Inl e)
                | Inr probabilities_for_another_samples \<Rightarrow>
                    certainty_threshold f1 probabilities_for_labeled_samples
                      (Some probabilities_for_another_samples))))"

text \<open>
  The quantities of the specification. \<open>top_confidence\<close> is the top Monte-Carlo-averaged
  class probability of sample \<open>i\<close> of a padded data set, computed in the batch that holds
  the sample. \<open>sweep_threshold j\<close> is the threshold of the sweep after \<open>j\<close> additions of
  \<open>1e-3\<close>. \<open>friend_or_foe_f1\<close> is the F1 score of the predicate "confidence at least the
  threshold" against the indicator that is 1 for the labeled samples and 0 for the
  unlabeled ones; \<open>compared_f1\<close> is the same score for the comparison as numpy makes it,
  with the threshold converted to \<open>float32\<close>.
\<close>

definition top_confidence ::
  "(real list \<Rightarrow> real) \<Rightarrow> 'w network \<Rightarrow> 'w \<Rightarrow> nat \<Rightarrow> nat \<Rightarrow> nat \<Rightarrow> ndarray list \<Rightarrow> nat \<Rightarrow> real" where
  "top_confidence np_mean net w m bs ncls X i =
     (let lo = i div bs * bs; feed = map (slice_rows lo (lo + bs)) X
      in Max (set (map (\<lambda>j. np_mean (map (\<lambda>k. net w k feed ! (i mod bs) ! j) [0..<m]))
                       [0..<ncls])))"

definition sweep_threshold :: "nat \<Rightarrow> real" where
  "sweep_threshold j = ((\<lambda>threshold. f64 (threshold + c1e3)) ^^ j) c1e3"

definition friend_or_foe_f1 :: "real list \<Rightarrow> real list \<Rightarrow> real \<Rightarrow> real" where
  "friend_or_foe_f1 labeled another threshold =
     f1_score (replicate (length labeled) 1 @ replicate (length another) 0)
              (map (\<lambda>p. p \<ge> threshold) (labeled @ another))"

definition compared_f1 ::
  "(int list \<Rightarrow> bool list \<Rightarrow> real) \<Rightarrow> real list \<Rightarrow> real list \<Rightarrow> real \<Rightarrow> real" where
  "compared_f1 f1 labeled another threshold =
     f1 (replicate (length labeled) 1 @ replicate (length another) 0)
        (map (\<lambda>p. p \<ge> f32 threshold) (labeled @ another))"

section \<open>Checkpoint files\<close>

text \<open>
  The directory of temporary files is an association list from file names to contents;
  the names of a directory are distinct. A checkpoint file holds the values of the
  variables of the session. The TensorFlow saver is an external collaborator:
  \<open>saver.save(sess, file_name)\<close> writes one file \<open>file_name + suffix\<close> for each suffix of
  the list \<open>sfx\<close> (for the default saver \<open>.index\<close>, \<open>.meta\<close> and \<open>.data-00000-of-00001\<close>),
  and \<open>saver.restore(sess, file_name)\<close> needs all of them.
\<close>

type_synonym 'w directory = "(string \<times> 'w) list"

definition save_model :: "string list \<Rightarrow> string \<Rightarrow> 'w \<Rightarrow> 'w directory \<Rightarrow> 'w directory" where
  "save_model sfx file_name w fs = fold (\<lambda>s. AList.update (file_name @ s) w) sfx fs"

definition load_model :: "string list \<Rightarrow> string \<Rightarrow> 'w directory \<Rightarrow> error + 'w" where
  "load_model sfx file_name fs =
     (if sfx \<noteq> [] \<and> (\<forall>s \<in> set sfx. map_of fs (file_name @ s) \<noteq> None)
      then (case map_of fs (file_name @ hd sfx) of None \<Rightarrow> Inl FileNotFoundError
            | Some w \<Rightarrow> Inr w)
      else Inl FileNotFoundError)"

text \<open>\<open>os.remove\<close>: raises when the file does not exist.\<close>

definition os_remove :: "string \<Rightarrow> 'w directory \<Rightarrow> error + 'w directory" where
  "os_remove name fs =
     (if name \<in> set (map fst fs) then Inr (AList.delete name fs) else Inl FileNotFoundError)"

text \<open>\<open>str.lower()\<close> on the ASCII letters.\<close>

definition lower_char :: "char \<Rightarrow> char" where
  "lower_char c =
     (let n = (of_char c :: nat) in if 65 \<le> n \<and> n \<le> 90 then char_of (n + 32) else c)"

definition lower :: "string \<Rightarrow> string" where
  "lower s = map lower_char s"

text \<open>
  \<open>find_all_model_files(model_name)\<close>, for a model name in the directory \<open>fs\<close>: the name
  itself when it is a file, then every file of the directory whose lower-case name contains
  the lower-case base name, sorted.
\<close>

definition find_all_model_files :: "string \<Rightarrow> 'w directory \<Rightarrow> string list" where
  "find_all_model_files model_name fs =
     sort ((if model_name \<in> set (map fst fs) then [model_name] else [])
           @ filter (\<lambda>cur. sublist (lower model_name) (lower cur)) (map fst fs))"

text \<open>
  \<open>for cur_name in ...: os.remove(cur_name)\<close>: the first error ends the loop; the directory
  reached is returned in both cases.
\<close>

fun remove_all :: "string list \<Rightarrow> 'w directory \<Rightarrow> error option \<times> 'w directory" where
  "remove_all [] fs = (None, fs)"
| "remove_all (cur_name # names) fs =
     (case os_remove cur_name fs of Inl e \<Rightarrow> (Some e, fs)
      | Inr fs' \<Rightarrow> remove_all names fs')"

section \<open>Training loop and model selection\<close>

text \<open>
  The state of the epoch loop of \<open>fit\<close>: the variables of the session, the directory of
  temporary files, \<open>best_acc\<close> and \<open>n_epochs_without_improving\<close>.
\<close>

record 'w loop_state =
  weights :: 'w
  files :: "'w directory"
  best_acc :: "real option"
  n_epochs_without_improving :: int

text \<open>
  The epoch loop, over the remaining epochs. \<open>train epoch w\<close> runs the optimizer over
  all batches of the epoch from the variables \<open>w\<close> (any exception ends it), and
  \<open>quality epoch w\<close> is the score of the epoch (the mean F1 on the validation set, or
  the training accuracy). The result is the exception that left the loop, if any, and the
  state reached. After a \<open>break\<close> the model is not reloaded; otherwise \<open>finalize_model\<close>,
  \<open>build_model\<close> and \<open>load_model\<close> replace the variables by the checkpoint.
\<close>

fun epoch_loop ::
  "(nat \<Rightarrow> 'w \<Rightarrow> error + 'w) \<Rightarrow> (nat \<Rightarrow> 'w \<Rightarrow> real) \<Rightarrow> string list \<Rightarrow> string \<Rightarrow> int
     \<Rightarrow> nat list \<Rightarrow> 'w loop_state \<Rightarrow> error option \<times> 'w loop_state" where
  "epoch_loop train quality sfx tmp_model_name patience' [] st = (None, st)"
| "epoch_loop train quality sfx tmp_model_name patience' (epoch # epochs) st =
     (case train epoch (weights st) of Inl e \<Rightarrow> (Some e, st)
      | Inr w \<Rightarrow>
          let acc = quality epoch w;
              st = st\<lparr>weights := w\<rparr>;
              st = (case best_acc st of
                      None \<Rightarrow> st\<lparr>best_acc := Some acc,
                                 files := save_model sfx tmp_model_name w (files st),
                                 n_epochs_without_improving := 0\<rparr>
                    | Some best \<Rightarrow>
                        if acc > best
                        then st\<lparr>best_acc := Some acc,
                                files := save_model sfx tmp_model_name w (files st),
                                n_epochs_without_improving := 0\<rparr>
                        else st\<lparr>n_epochs_without_improving :=
                                  n_epochs_without_improving st + 1\<rparr>)
          in if n_epochs_without_improving st \<ge> patience' then (None, st)
             else (case best_acc st of
                     None \<Rightarrow> epoch_loop train quality sfx tmp_model_name patience' epochs st
                   | Some _ \<Rightarrow>
                       (case load_model sfx tmp_model_name (files st) of
                          Inl e \<Rightarrow> (Some e, st)
                        | Inr w' \<Rightarrow>
                            epoch_loop train quality sfx tmp_model_name patience' epochs
                              (st\<lparr>weights := w'\<rparr>))))"

text \<open>
  The \<open>try ... finally\<close> of \<open>fit\<close>: the epoch loop, then the removal of every file that
  \<open>find_all_model_files\<close> finds for the temporary name. An exception of the removal
  replaces the one of the loop.
\<close>

definition run_epochs ::
  "(nat \<Rightarrow> 'w \<Rightarrow> error + 'w) \<Rightarrow> (nat \<Rightarrow> 'w \<Rightarrow> real) \<Rightarrow> string list \<Rightarrow> string \<Rightarrow> int
     \<Rightarrow> nat \<Rightarrow> 'w \<Rightarrow> 'w directory \<Rightarrow> error option \<times> 'w loop_state" where
  "run_epochs train quality sfx tmp_model_name patience' max_epochs' w fs =
     (case epoch_loop train quality sfx tmp_model_name patience' [0..<max_epochs']
             \<lparr>weights = w, files = fs, best_acc = None, n_epochs_without_improving = 0\<rparr> of
        (exc, st) \<Rightarrow>
          (case remove_all (find_all_model_files tmp_model_name (files st)) (files st) of
             (Some e, fs') \<Rightarrow> (Some e, st\<lparr>files := fs'\<rparr>)
           | (None, fs') \<Rightarrow> (exc, st\<lparr>files := fs'\<rparr>)))"

text \<open>
  The directories on which the epoch loop is started: the names are distinct, and the
  temporary model name itself is not a file (\<open>get_temp_model_name\<close> returns the name of a
  temporary file that is already deleted, and the saver writes only suffixed files).
\<close>

definition dir_ok :: "string \<Rightarrow> 'w directory \<Rightarrow> bool" where
  "dir_ok tmp fs \<longleftrightarrow> distinct (map fst fs) \<and> tmp \<notin> set (map fst fs)"

section \<open>Serialization: \<open>dump_all\<close> and \<open>load_all\<close>\<close>

text \<open>
  The state dictionary maps attribute names to Python values; it is an association list
  in insertion order. The bytes of a checkpoint file are the values of the variables that
  the file holds.
\<close>

datatype 'w pyval =
    VNone
  | VBool bool
  | VInt int
  | VFloat real
  | VStr string
  | VTuple "int list"
  | VTokenizer tokenizer
  | VBytes 'w

type_synonym 'w pydict = "(string \<times> 'w pyval) list"

definition bind_err :: "error + 'a \<Rightarrow> ('a \<Rightarrow> error + 'b) \<Rightarrow> error + 'b" where
  "bind_err m f = (case m of Inl e \<Rightarrow> Inl e | Inr x \<Rightarrow> f x)"

text \<open>
  Reading one keyword argument as \<open>check_params\<close> does: a missing key and a value of
  another type both raise \<open>ValueError\<close>.
\<close>

definition get_int :: "'w pydict \<Rightarrow> string \<Rightarrow> error + int" where
  "get_int kwargs k = (case map_of kwargs k of Some (VInt i) \<Rightarrow> Inr i | _ \<Rightarrow> Inl ValueError)"

definition get_float :: "'w pydict \<Rightarrow> string \<Rightarrow> error + real" where
  "get_float kwargs k = (case map_of kwargs k of Some (VFloat x) \<Rightarrow> Inr x | _ \<Rightarrow> Inl ValueError)"

definition get_bool :: "'w pydict \<Rightarrow> string \<Rightarrow> error + bool" where
  "get_bool kwargs k =
     (case map_of kwargs k of Some (VBool b) \<Rightarrow> Inr b | Some (VInt i) \<Rightarrow> Inr (i \<noteq> 0)
      | _ \<Rightarrow> Inl ValueError)"

definition get_tuple :: "'w pydict \<Rightarrow> string \<Rightarrow> error + int list" where
  "get_tuple kwargs k = (case map_of kwargs k of Some (VTuple xs) \<Rightarrow> Inr xs | _ \<Rightarrow> Inl ValueError)"

definition get_opt_int :: "'w pydict \<Rightarrow> string \<Rightarrow> error + int option" where
  "get_opt_int kwargs k =
     (case map_of kwargs k of Some (VInt i) \<Rightarrow> Inr (Some i) | Some VNone \<Rightarrow> Inr None
      | _ \<Rightarrow> Inl ValueError)"

definition get_opt_str :: "'w pydict \<Rightarrow> string \<Rightarrow> error + string option" where
  "get_opt_str kwargs k =
     (case map_of kwargs k of Some (VStr h) \<Rightarrow> Inr (Some h) | Some VNone \<Rightarrow> Inr None
      | _ \<Rightarrow> Inl ValueError)"

text \<open>
  \<open>check_params(**new_params)\<close> followed by \<open>set_params(**new_params)\<close> on an object
  without fitted attributes: the ten parameters are read from the dictionary and checked.
\<close>

definition params_of_dict :: "'w pydict \<Rightarrow> error + 'w classifier" where
  "params_of_dict kwargs =
     bind_err (get_int kwargs ''batch_size'') (\<lambda>bs.
     bind_err (get_opt_str kwargs ''bert_hub_module_handle'') (\<lambda>handle.
     bind_err (get_int kwargs ''max_epochs'') (\<lambda>me.
     bind_err (get_int kwargs ''num_monte_carlo'') (\<lambda>mc.
     bind_err (get_int kwargs ''patience'') (\<lambda>pt.
     bind_err (get_opt_int kwargs ''random_seed'') (\<lambda>seed.
     bind_err (get_float kwargs ''gpu_memory_frac'') (\<lambda>gpu.
     bind_err (get_float kwargs ''validation_fraction'') (\<lambda>vf.
     bind_err (get_bool kwargs ''verbose'') (\<lambda>vb.
     bind_err (get_tuple kwargs ''hidden_layer_sizes'') (\<lambda>hl.
       let c = \<lparr> batch_size = bs, hidden_layer_sizes = hl, bert_hub_module_handle = handle,
                 max_epochs = me, num_monte_carlo = mc, patience = pt, random_seed = seed,
                 gpu_memory_frac = gpu, validation_fraction = vf, verbose = vb,
                 n_classes' = None, tokenizer' = None, sess' = None,
                 certainty_threshold' = None \<rparr>
       in bind_err (check_params c) (\<lambda>_. Inr c)))))))))))"

text \<open>\<open>get_params\<close>, in the order of the source.\<close>

definition get_params :: "('w, 'a) classifier_scheme \<Rightarrow> 'w pydict" where
  "get_params c =
     [(''bert_hub_module_handle'',
         (case bert_hub_module_handle c of None \<Rightarrow> VNone | Some h \<Rightarrow> VStr h)),
      (''batch_size'', VInt (batch_size c)),
      (''max_epochs'', VInt (max_epochs c)),
      (''patience'', VInt (patience c)),
      (''hidden_layer_sizes'', VTuple (hidden_layer_sizes c)),
      (''validation_fraction'', VFloat (validation_fraction c)),
      (''gpu_memory_frac'', VFloat (gpu_memory_frac c)),
      (''verbose'', VBool (verbose c)),
      (''random_seed'', (case random_seed c of None \<Rightarrow> VNone | Some i \<Rightarrow> VInt i)),
      (''num_monte_carlo'', VInt (num_monte_carlo c))]"

text \<open>
  \<open>dump_all\<close> (\<open>__getstate__\<close>). \<open>model_file_name\<close> is the name that
  \<open>get_temp_model_name\<close> returns. A fitted estimator adds \<open>n_classes_\<close>, \<open>tokenizer_\<close>,
  \<open>model_name_\<close> and one entry \<open>model.<file>\<close> for each checkpoint file; the \<open>finally\<close>
  block removes the files. As in the source, no entry is made for \<open>certainty_threshold_\<close>.
\<close>

definition dump_all ::
  "string list \<Rightarrow> string \<Rightarrow> ('w, 'a) classifier_scheme \<Rightarrow> 'w directory
     \<Rightarrow> (error + 'w pydict) \<times> 'w directory" where
  "dump_all sfx model_file_name c fs =
     (let params = get_params c in
      case is_fitted c of
        Inl _ \<Rightarrow> (Inr params, fs)
      | Inr _ \<Rightarrow>
          (case (n_classes' c, tokenizer' c, sess' c) of
             (Some n, Some tok, Some w) \<Rightarrow>
               let params = AList.update ''n_classes_'' (VInt (int n)) params;
                   params = AList.update ''tokenizer_'' (VTokenizer tok) params;
                   params = AList.update ''model_name_'' (VStr model_file_name) params;
                   fs = save_model sfx model_file_name w fs;
                   params = fold (\<lambda>cur_name ps.
                                    case map_of fs cur_name of None \<Rightarrow> ps
                                    | Some model_data \<Rightarrow>
                                        AList.update (''model.'' @ cur_name) (VBytes model_data) ps)
                                 (find_all_model_files model_file_name fs) params
               in (case remove_all (find_all_model_files model_file_name fs) fs of
                     (Some e, fs') \<Rightarrow> (Inl e, fs')
                   | (None, fs') \<Rightarrow> (Inr params, fs'))
           | _ \<Rightarrow> (Inl AttributeError, fs)))"

text \<open>\<open>str.strip()\<close>: the ASCII whitespace is removed at both ends.\<close>

definition is_space :: "char \<Rightarrow> bool" where
  "is_space c = (let n = (of_char c :: nat) in (9 \<le> n \<and> n \<le> 13) \<or> (28 \<le> n \<and> n \<le> 32))"

definition strip :: "string \<Rightarrow> string" where
  "strip s = rev (dropWhile is_space (rev (dropWhile is_space s)))"

text \<open>The names of the checkpoint files of a state dictionary, as \<open>load_all\<close> lists them.\<close>

definition model_files_of :: "'w pydict \<Rightarrow> string list" where
  "model_files_of new_params =
     filter (\<lambda>it3. length it3 > 0)
       (map (\<lambda>it2. strip (drop (length ''model.'') it2))
         (filter (\<lambda>it1. prefix ''model.'' it1 \<and> length it1 > length ''model.'')
           (map fst new_params)))"

text \<open>Writing the files of the dictionary; a missing key is a \<open>KeyError\<close>.\<close>

fun write_files :: "'w pydict \<Rightarrow> string list \<Rightarrow> 'w directory \<Rightarrow> error option \<times> 'w directory" where
  "write_files new_params [] fs = (None, fs)"
| "write_files new_params (cur # names) fs =
     (case map_of new_params (''model.'' @ cur) of
        Some (VBytes data) \<Rightarrow> write_files new_params names (AList.update cur data fs)
      | _ \<Rightarrow> (Some KeyError, fs))"

text \<open>\<open>for cur in tmp_file_names: if os.path.isfile(cur): os.remove(cur)\<close>.\<close>

definition remove_existing :: "string list \<Rightarrow> 'w directory \<Rightarrow> 'w directory" where
  "remove_existing names fs = fold (\<lambda>cur fs. AList.delete cur fs) names fs"

text \<open>
  \<open>load_all\<close> (\<open>__setstate__\<close>). \<open>old_threshold\<close> is the attribute \<open>certainty_threshold_\<close>
  of the object before the call, which \<open>load_all\<close> neither deletes nor assigns: \<open>None\<close> for
  the fresh object that unpickling creates. \<open>now\<close> is the clock that replaces a random
  seed \<open>None\<close>. The values \<open>n_classes_\<close>, \<open>tokenizer_\<close> and \<open>model_name_\<close> must have the
  types that \<open>build_model\<close> and \<open>load_model\<close> need.
\<close>

definition load_all ::
  "string list \<Rightarrow> int \<Rightarrow> real option \<Rightarrow> 'w pydict \<Rightarrow> 'w directory
     \<Rightarrow> (error + 'w classifier) \<times> 'w directory" where
  "load_all sfx now old_threshold new_params fs =
     (case params_of_dict new_params of
        Inl e \<Rightarrow> (Inl e, fs)
      | Inr c \<Rightarrow>
          let c = c\<lparr>certainty_threshold' := old_threshold\<rparr>;
              is_fitted = (map_of new_params ''n_classes_'' \<noteq> None
                            \<and> map_of new_params ''tokenizer_'' \<noteq> None
                            \<and> map_of new_params ''model_name_'' \<noteq> None);
              model_files = model_files_of new_params;
              is_fitted = (if is_fitted \<and> length model_files = 0 then False else is_fitted)
          in if is_fitted then
               if \<exists>cur \<in> set model_files. cur \<in> set (map fst fs) then (Inl ValueError, fs)
               else
                 (case (map_of new_params ''n_classes_'', map_of new_params ''tokenizer_'',
                        map_of new_params ''model_name_'') of
                    (Some (VInt n), Some (VTokenizer tok), Some (VStr model_name)) \<Rightarrow>
                      let c = c\<lparr>n_classes' := Some (nat n), tokenizer' := Some tok,
                                 random_seed := (case random_seed c of None \<Rightarrow> Some now
                                                 | Some i \<Rightarrow> Some i)\<rparr>
                      in (case write_files new_params model_files fs of
                            (Some e, fs') \<Rightarrow> (Inl e, remove_existing model_files fs')
                          | (None, fs') \<Rightarrow>
                              (case load_model sfx model_name fs' of
                                 Inl e \<Rightarrow> (Inl e, remove_existing model_files fs')
                               | Inr w \<Rightarrow>
                                   (Inr (c\<lparr>sess' := Some w\<rparr>),
                                    remove_existing model_files fs')))
                  | _ \<Rightarrow> (Inl ValueError, fs))
             else (Inr c, fs))"

section \<open>Model builder: the training loss\<close>

text \<open>
  \<open>tfp.distributions.Categorical(logits=logits_)\<close> for one sample: \<open>probs\<close> is the softmax
  of the logits, and \<open>log_prob(y)\<close> is computed from the logits as the logit of the label
  minus the logarithm of the sum of the exponentials.
\<close>

definition categorical_probs :: "real list \<Rightarrow> real list" where
  "categorical_probs logits = map (\<lambda>l. exp l / (\<Sum>l' \<leftarrow> logits. exp l')) logits"

definition categorical_log_prob :: "real list \<Rightarrow> nat \<Rightarrow> real" where
  "categorical_log_prob logits y = logits ! y - ln (\<Sum>l' \<leftarrow> logits. exp l')"

text \<open>
  \<open>neg_log_likelihood = -tf.reduce_mean(labels_distribution_.log_prob(y_ph_))\<close> over the
  rows of the batch.
\<close>

definition neg_log_likelihood :: "real list list \<Rightarrow> nat list \<Rightarrow> real" where
  "neg_log_likelihood logits y_ph =
     - ((\<Sum>(l, y) \<leftarrow> zip logits y_ph. categorical_log_prob l y) / real (length (zip logits y_ph)))"

text \<open>
  \<open>kl = sum(model.losses)\<close> and \<open>elbo_loss = neg_log_likelihood + kl\<close>, the loss that
  \<open>optimizer.minimize\<close> receives. \<open>losses\<close> is the list \<open>model.losses\<close>: the Kullback-Leibler
  divergence that each \<open>DenseFlipout\<close> layer (an external collaborator) registers between
  the posterior of its weights and their prior.
\<close>

definition elbo_loss :: "real list list \<Rightarrow> nat list \<Rightarrow> real list \<Rightarrow> real" where
  "elbo_loss logits y_ph losses = (let kl = sum_list losses in neg_log_likelihood logits y_ph + kl)"

section \<open>An example estimator\<close>

text \<open>
  A small fitted estimator on which the properties below are evaluated: batches of two
  samples, two classes, a tokenizer that makes one word piece of a text, and a network that
  answers the probabilities 0.3 and 0.7 for every sample.
\<close>

definition demo_tokenizer :: tokenizer where
  "demo_tokenizer = \<lparr> tokenize = (\<lambda>s. [s]), convert_token_to_id = (\<lambda>t. int (length t)) \<rparr>"

definition demo_net :: "nat network" where
  "demo_net = (\<lambda>w k feed. replicate 2 [3 / 10, 7 / 10])"

definition demo_classifier :: "nat classifier" where
  "demo_classifier = \<lparr> batch_size = 2, hidden_layer_sizes = [100],
     bert_hub_module_handle = Some ''bert'', max_epochs = 10, num_monte_carlo = 2, patience = 3,
     random_seed = Some 31, gpu_memory_frac = 1, validation_fraction = 1 / 10, verbose = False,
     n_classes' = Some 2, tokenizer' = Some demo_tokenizer, sess' = Some 0,
     certainty_threshold' = Some (1 / 2) \<rparr>"

text \<open>
  For the calibration: the exact mean in the place of numpy's, and a network that answers
  the probabilities 0.25 and 0.75, which are \<open>float32\<close> numbers, for every sample.
\<close>

definition exact_mean :: "real list \<Rightarrow> real" where
  "exact_mean xs = sum_list xs / real (length xs)"

definition demo_net_quarters :: "nat network" where
  "demo_net_quarters = (\<lambda>w k feed. replicate 2 [1 / 4, 3 / 4])"

chapter \<open>Verified properties\<close>

section \<open>Properties of the batch partitioner\<close>

lemma np_full_is_Arr2: "np_full n l v = Inr pad \<Longrightarrow> \<exists>c rows. pad = Arr2 c rows"
  by (cases v) (auto split: if_splits)

lemma np_concatenate_label_pad: "np_concatenate (Arr1 ys) (Arr2 c rows) = Inl ValueError"
  by simp

lemma extend_channel_pads:
  assumes "rows \<noteq> []" and "length (last rows) = MAX_SEQ_LENGTH" and "0 \<le> n"
  shows "extend_channel n (Arr2 MAX_SEQ_LENGTH rows)
           = Inr (Arr2 MAX_SEQ_LENGTH (rows @ replicate (nat n) (last rows)))"
  using assms by (simp add: extend_channel_def)

lemma extend_Xy_unlabeled_pads_at:
  "extend_Xy 4 rng
     [Arr2 MAX_SEQ_LENGTH [replicate MAX_SEQ_LENGTH 5],
      Arr2 MAX_SEQ_LENGTH [replicate MAX_SEQ_LENGTH 1],
      Arr2 MAX_SEQ_LENGTH [replicate MAX_SEQ_LENGTH 0]]
     None False
   = Inr ([Arr2 MAX_SEQ_LENGTH (replicate 4 (replicate MAX_SEQ_LENGTH 5)),
           Arr2 MAX_SEQ_LENGTH (replicate 4 (replicate MAX_SEQ_LENGTH 1)),
           Arr2 MAX_SEQ_LENGTH (replicate 4 (replicate MAX_SEQ_LENGTH 0))], None)"
  by (simp add: extend_Xy_def extend_channel_def numeral_eq_Suc)

lemma extend_Xy_pad_labels_at:
  "extend_Xy 4 rng
     [Arr2 MAX_SEQ_LENGTH [replicate MAX_SEQ_LENGTH 5],
      Arr2 MAX_SEQ_LENGTH [replicate MAX_SEQ_LENGTH 1],
      Arr2 MAX_SEQ_LENGTH [replicate MAX_SEQ_LENGTH 0]]
     (Some (Arr1 [0])) False = Inl ValueError"
  by (simp add: extend_Xy_def extend_channel_def)

text \<open>
  C3. The claim: when the number of samples is not a multiple of the batch size,
  \<open>extend_Xy\<close> returns the token arrays and the label vector padded with copies of the last
  sample and of the last label. The code does so for the token arrays, but it builds the
  padding of the one-dimensional label vector with the two-dimensional shape
  \<open>(n_extend, MAX_SEQ_LENGTH)\<close>, so \<open>np.concatenate\<close> raises: whenever a label vector is
  given and padding is needed, \<open>extend_Xy\<close> returns no result at all.
\<close>

theorem extend_Xy_labels_raise:
  assumes "bs \<noteq> 0" and "int (shape0 X0) mod bs \<noteq> 0"
  shows "isl (extend_Xy bs rng (X0 # Xs) (Some (Arr1 ys)) shuffle)"
proof -
  have pad: "np_concatenate (Arr1 ys) p \<noteq> Inr y_ext"
    if "np_full n l v = Inr p" for n l v p y_ext
    using np_full_is_Arr2 [OF that] by auto
  show ?thesis
    using assms
    by (auto simp: extend_Xy_def Let_def pad split: sum.splits)
qed

theorem extend_Xy_labels_raise_witness:
  "isl (extend_Xy 4 (\<lambda>n. upt 0 n)
     [Arr2 MAX_SEQ_LENGTH [replicate MAX_SEQ_LENGTH 5],
      Arr2 MAX_SEQ_LENGTH [replicate MAX_SEQ_LENGTH 1],
      Arr2 MAX_SEQ_LENGTH [replicate MAX_SEQ_LENGTH 0]]
     (Some (Arr1 [0])) False)"
  using extend_Xy_labels_raise [of 4 "Arr2 MAX_SEQ_LENGTH [replicate MAX_SEQ_LENGTH 5]"]
  by simp

text \<open>
  C10. When the number of samples is an exact multiple of the batch size, \<open>extend_Xy\<close>
  called with \<open>shuffle=True\<close> returns its inputs unchanged: no padding and no permutation,
  whatever permutation the random generator would have drawn.
\<close>

theorem extend_Xy_multiple_unchanged:
  assumes "bs \<noteq> 0" and "int (shape0 X0) mod bs = 0"
  shows "extend_Xy bs rng (X0 # Xs) y True = Inr (X0 # Xs, y)"
  using assms by (simp add: extend_Xy_def)

theorem extend_Xy_multiple_unchanged_witness:
  "extend_Xy 2 (\<lambda>n. rev (upt 0 n))
     [Arr2 MAX_SEQ_LENGTH [replicate MAX_SEQ_LENGTH 5, replicate MAX_SEQ_LENGTH 6],
      Arr2 MAX_SEQ_LENGTH [replicate MAX_SEQ_LENGTH 1, replicate MAX_SEQ_LENGTH 1],
      Arr2 MAX_SEQ_LENGTH [replicate MAX_SEQ_LENGTH 0, replicate MAX_SEQ_LENGTH 0]]
     (Some (Arr1 [0, 1])) True
   = Inr ([Arr2 MAX_SEQ_LENGTH [replicate MAX_SEQ_LENGTH 5, replicate MAX_SEQ_LENGTH 6],
           Arr2 MAX_SEQ_LENGTH [replicate MAX_SEQ_LENGTH 1, replicate MAX_SEQ_LENGTH 1],
           Arr2 MAX_SEQ_LENGTH [replicate MAX_SEQ_LENGTH 0, replicate MAX_SEQ_LENGTH 0]],
          Some (Arr1 [0, 1]))"
  using extend_Xy_multiple_unchanged
    [of 2 "Arr2 MAX_SEQ_LENGTH [replicate MAX_SEQ_LENGTH 5, replicate MAX_SEQ_LENGTH 6]"]
  by simp

section \<open>Properties of the Monte-Carlo predictor\<close>

lemma to_int32_unit: "0 \<le> x \<Longrightarrow> x < 1 \<Longrightarrow> to_int32 x = 0"
  by (simp add: to_int32_def floor_eq_iff)

lemma sum_list_pos_bound:
  assumes "\<forall>k < m. 0 < f k \<and> f k < (1::real)" and "0 < m"
  shows "0 < (\<Sum>k \<leftarrow> [0..<m]. f k) \<and> (\<Sum>k \<leftarrow> [0..<m]. f k) < real m"
  using assms
proof (induction m)
  case 0
  then show ?case by simp
next
  case (Suc m)
  show ?case
  proof (cases "m = 0")
    case True
    with Suc.prems show ?thesis by simp
  next
    case False
    with Suc have "0 < (\<Sum>k \<leftarrow> [0..<m]. f k) \<and> (\<Sum>k \<leftarrow> [0..<m]. f k) < real m" by simp
    moreover from Suc.prems have "0 < f m \<and> f m < 1" by simp
    ultimately show ?thesis by simp
  qed
qed

lemma mean_probs_zero:
  assumes "\<forall>k i j. i < bs \<and> j < ncls \<longrightarrow> 0 < net w k feed ! i ! j \<and> net w k feed ! i ! j < 1"
    and "0 < m"
  shows "map (map to_int32) (mean_probs net w m bs ncls feed) = replicate bs (replicate ncls 0)"
proof -
  have "to_int32 ((\<Sum>k \<leftarrow> [0..<m]. net w k feed ! i ! j) / real m) = 0"
    if "i < bs" "j < ncls" for i j
  proof -
    from that assms(1) have "\<forall>k < m. 0 < net w k feed ! i ! j \<and> net w k feed ! i ! j < 1" by simp
    from sum_list_pos_bound [OF this assms(2)] assms(2) show ?thesis
      by (intro to_int32_unit) simp_all
  qed
  then show ?thesis
    by (auto simp: mean_probs_def list_eq_iff_nth_eq)
qed

lemma predict_batches_zero:
  assumes "\<forall>k feed i j. i < bs \<and> j < ncls \<longrightarrow> 0 < net w k feed ! i ! j \<and> net w k feed ! i ! j < 1"
    and "0 < m"
    and "predict_batches net w m bs ncls X bounds probabilities = Inr P"
    and "\<forall>row \<in> set probabilities. \<forall>v \<in> set row. v = 0"
  shows "\<forall>row \<in> set P. \<forall>v \<in> set row. v = 0"
  using assms(3,4)
proof (induction bounds arbitrary: probabilities)
  case Nil
  then show ?case by simp
next
  case (Cons b bounds)
  obtain lo hi where b: "b = (lo, hi)" by (cases b)
  from Cons.prems(1) b obtain feed where
    feed: "fill_feed_dict (int bs) (map (slice_rows lo hi) X) = Inr feed"
    and rest: "predict_batches net w m bs ncls X bounds
            (take lo probabilities @ map (map to_int32) (mean_probs net w m bs ncls feed)
              @ drop hi probabilities) = Inr P"
    by (auto split: sum.splits)
  have z: "map (map to_int32) (mean_probs net w m bs ncls feed) = replicate bs (replicate ncls 0)"
    using assms(1,2) by (intro mean_probs_zero) auto
  have "\<forall>row \<in> set (take lo probabilities @ map (map to_int32) (mean_probs net w m bs ncls feed)
              @ drop hi probabilities). \<forall>v \<in> set row. v = 0"
    using Cons.prems(2) unfolding z
    by (auto dest: in_set_takeD in_set_dropD)
  from Cons.IH [OF rest this] show ?case .
qed

lemma sum_list_zeros: "\<forall>v \<in> set row. v = (0::int) \<Longrightarrow> sum_list row = 0"
  by (induction row) auto

lemma predict_proba_unfold:
  assumes "predict_proba net rng c X = Inr P"
  shows "\<exists>w ncls Xt bounds n k P'. sess' c = Some w \<and> n_classes' c = Some ncls \<and>
           predict_batches net w (nat (num_monte_carlo c)) (nat (batch_size c)) ncls Xt bounds
             (replicate n (replicate ncls 0)) = Inr P' \<and> P = take k P'"
  using assms
  by (simp add: predict_proba_def Let_def split: sum.splits option.splits prod.splits) blast

lemma demo_pp: "predict_proba demo_net (\<lambda>n. [0..<n]) demo_classifier [''a''] = Inr [[0, 0]]"
  apply (simp add: predict_proba_def demo_classifier_def check_params_def is_fitted_def
      tokenize_all_def tokenize_one_def demo_tokenizer_def extend_Xy_def extend_channel_def
      fill_feed_dict_def mean_probs_def demo_net_def to_int32_def Let_def)
  apply (simp add: MAX_SEQ_LENGTH_def)
  apply (simp add:  fill_feed_dict_def mean_probs_def demo_net_def to_int32_def Let_def numeral_2_eq_2 upt_rec)
  done


text \<open>
  C1. The claim: \<open>predict_proba\<close> returns a matrix whose rows sum to 1 within 1e-3 and whose
  entries lie strictly between 0 and 1. The code collects the Monte-Carlo means in an array
  created with \<open>dtype=np.int32\<close>, so every mean is truncated: whenever the network answers
  probabilities strictly between 0 and 1, every entry that \<open>predict_proba\<close> returns is 0 and
  every row sums to 0.
\<close>

theorem predict_proba_all_zero:
  assumes "predict_proba net rng c X = Inr P"
    and "n_classes' c = Some ncls"
    and "\<forall>w k feed. \<forall>i < nat (batch_size c). \<forall>j < ncls.
           0 < net w k feed ! i ! j \<and> net w k feed ! i ! j < 1"
  shows "\<forall>row \<in> set P. sum_list row = 0 \<and> (\<forall>v \<in> set row. v = 0)"
proof -
  from assms(1) have m: "0 < nat (num_monte_carlo c)"
    by (auto simp: predict_proba_def check_params_def split: sum.splits if_splits)
  from predict_proba_unfold [OF assms(1)] assms(2) obtain w Xt bounds n k P' where
    pb: "predict_batches net w (nat (num_monte_carlo c)) (nat (batch_size c)) ncls Xt bounds
             (replicate n (replicate ncls 0)) = Inr P'" and P: "P = take k P'"
    by auto
  have "\<forall>row \<in> set P'. \<forall>v \<in> set row. v = 0"
    using assms(3) by (intro predict_batches_zero [OF _ m pb]) auto
  then have "\<forall>row \<in> set P. \<forall>v \<in> set row. v = 0"
    unfolding P by (auto dest: in_set_takeD)
  then show ?thesis
    by (auto intro: sum_list_zeros)
qed

theorem predict_proba_all_zero_witness:
  "predict_proba demo_net (\<lambda>n. [0..<n]) demo_classifier [''a''] = Inr [[0, 0]]
   \<and> sum_list [0, 0 :: int] = 0"
proof -
  have n: "n_classes' demo_classifier = Some 2"
    by (simp add: demo_classifier_def)
  have net: "\<forall>w k feed. \<forall>i < nat (batch_size demo_classifier). \<forall>j < 2.
           0 < demo_net w k feed ! i ! j \<and> demo_net w k feed ! i ! j < 1"
    by (auto simp: demo_net_def demo_classifier_def less_Suc_eq numeral_2_eq_2)
  from predict_proba_all_zero [OF demo_pp n net] demo_pp show ?thesis by simp
qed


section \<open>Properties of \<open>predict\<close>\<close>

lemma argmax_less: "row \<noteq> [] \<Longrightarrow> argmax row < length row"
proof (induction row)
  case Nil
  then show ?case by simp
next
  case (Cons x xs)
  show ?case
  proof (cases "\<forall>y \<in> set xs. y \<le> x")
    case True
    then show ?thesis by simp
  next
    case False
    then have "xs \<noteq> []" by auto
    from Cons.IH [OF this] False show ?thesis by simp
  qed
qed

lemma argmax_is_Max: "row \<noteq> [] \<Longrightarrow> row ! argmax row = Max (set row)"
proof (induction row)
  case Nil
  then show ?case by simp
next
  case (Cons x xs)
  show ?case
  proof (cases "\<forall>y \<in> set xs. y \<le> x")
    case True
    then have "Max (set (x # xs)) = x"
      by (intro Max_eqI) auto
    with True show ?thesis by simp
  next
    case False
    then have ne: "xs \<noteq> []" by auto
    from False obtain y where y: "y \<in> set xs" "x < y" by auto
    then have "x < Max (set xs)"
      by (meson List.finite_set Max_ge less_le_trans)
    then have "Max (set (x # xs)) = Max (set xs)"
      using ne by (simp add: max_def)
    moreover from False have "argmax (x # xs) = Suc (argmax xs)" by simp
    ultimately show ?thesis using Cons.IH [OF ne] by simp
  qed
qed

lemma argmax_first: "j < argmax row \<Longrightarrow> row ! j < Max (set row)"
proof (induction row arbitrary: j)
  case Nil
  then show ?case by simp
next
  case (Cons x xs)
  from Cons.prems have nall: "\<not> (\<forall>y \<in> set xs. y \<le> x)"
    by (auto split: if_splits)
  then have ne: "xs \<noteq> []" by auto
  from nall obtain y where y: "y \<in> set xs" "x < y" by auto
  then have lt: "x < Max (set xs)"
    by (meson List.finite_set Max_ge less_le_trans)
  then have M: "Max (set (x # xs)) = Max (set xs)"
    using ne by (simp add: max_def)
  show ?case
  proof (cases j)
    case 0
    with lt M show ?thesis by simp
  next
    case (Suc j')
    with Cons.prems nall have "j' < argmax xs" by simp
    from Cons.IH [OF this] Suc M show ?thesis by simp
  qed
qed

lemma recognize_nth:
  assumes "recognize t P = Inr classes" and "i < length P"
  shows "P ! i \<noteq> [] \<and> length classes = length P \<and>
         classes ! i = (if t \<le> real_of_int (Max (set (P ! i))) then int (argmax (P ! i)) else - 1)"
proof -
  from assms have "[] \<notin> set P"
    by (auto simp: recognize_def split: if_splits)
  with assms(2) have ne: "P ! i \<noteq> []"
    by (metis nth_mem)
  from assms have cl: "classes = map (\<lambda>row. if real_of_int (row ! argmax row) < t then - 1
                           else int (argmax row)) P"
    by (auto simp: recognize_def split: if_splits)
  show ?thesis
    using ne cl assms(2) argmax_is_Max [OF ne] by (auto simp: not_less)
qed

lemma demo_predict: "predict demo_net (\<lambda>n. [0..<n]) demo_classifier [''a''] = Inr [- 1]"
proof -
  have t: "certainty_threshold' demo_classifier = Some (1 / 2)"
    by (simp add: demo_classifier_def)
  have r: "recognize (1 / 2) [[0, 0]] = Inr [- 1]"
    by (simp add: recognize_def)
  show ?thesis
    by (simp add: predict_def demo_pp t r)
qed

text \<open>
  C5. For a fitted estimator, \<open>predict(X)[i]\<close> is the index of the first maximum of
  row \<open>i\<close> of the matrix that \<open>predict_proba(X)\<close> returns whenever that maximum is at least
  \<open>certainty_threshold_\<close>, and the sentinel \<open>-1\<close> otherwise.
\<close>

theorem predict_argmax_or_unknown:
  assumes "predict net rng c X = Inr classes"
    and "predict_proba net rng c X = Inr P"
    and "certainty_threshold' c = Some t"
    and "i < length P"
  shows "length classes = length P \<and>
         classes ! i = (if t \<le> real_of_int (Max (set (P ! i))) then int (argmax (P ! i)) else - 1)
         \<and> argmax (P ! i) < length (P ! i)
         \<and> P ! i ! argmax (P ! i) = Max (set (P ! i))
         \<and> (\<forall>j < argmax (P ! i). P ! i ! j < Max (set (P ! i)))"
proof -
  from assms(1-3) have r: "recognize t P = Inr classes"
    by (simp add: predict_def)
  from recognize_nth [OF r assms(4)] show ?thesis
    using argmax_less argmax_is_Max argmax_first by auto
qed

theorem predict_argmax_or_unknown_witness:
  "predict demo_net (\<lambda>n. [0..<n]) demo_classifier [''a''] = Inr [- 1]
   \<and> predict_proba demo_net (\<lambda>n. [0..<n]) demo_classifier [''a''] = Inr [[0, 0]]
   \<and> [- 1 :: int] ! 0 = (if 1 / 2 \<le> real_of_int (Max (set [0, 0])) then int (argmax [0, 0]) else - 1)"
proof -
  have t: "certainty_threshold' demo_classifier = Some (1 / 2)"
    by (simp add: demo_classifier_def)
  from predict_argmax_or_unknown [OF demo_predict demo_pp t, of 0] demo_predict demo_pp
  show ?thesis by simp
qed

section \<open>Properties of the validation of the labels\<close>

lemma strict_sorted_gap:
  fixes xs :: "int list"
  assumes "sorted_wrt (<) xs"
  shows "i \<le> j \<Longrightarrow> j < length xs \<Longrightarrow> xs ! i + int (j - i) \<le> xs ! j"
proof (induction j)
  case 0
  then show ?case by simp
next
  case (Suc j)
  show ?case
  proof (cases "i = Suc j")
    case True
    then show ?thesis by simp
  next
    case False
    with Suc.prems have ij: "i \<le> j" and j: "j < length xs" by simp_all
    from Suc.IH [OF ij j] have "xs ! i + int (j - i) \<le> xs ! j" .
    moreover have "xs ! j < xs ! Suc j"
      using assms Suc.prems(2) by (simp add: sorted_wrt_nth_less)
    ultimately show ?thesis using ij by (simp add: Suc_diff_le)
  qed
qed

lemma contiguous_from_ends:
  fixes xs :: "int list"
  assumes "sorted_wrt (<) xs" and "xs \<noteq> []" and "hd xs = 0" and "last xs = int (length xs) - 1"
  shows "xs = map int [0..<length xs]"
proof (rule nth_equalityI)
  show "length xs = length (map int [0..<length xs])" by simp
next
  fix i assume i: "i < length xs"
  from assms(2,3) have h: "xs ! 0 = 0" by (simp add: hd_conv_nth)
  from assms(2,4) have l: "xs ! (length xs - 1) = int (length xs) - 1" by (simp add: last_conv_nth)
  from strict_sorted_gap [OF assms(1), of 0 i] i h have lo: "int i \<le> xs ! i" by simp
  from strict_sorted_gap [OF assms(1), of i "length xs - 1"] i l
  have "xs ! i + int (length xs - 1 - i) \<le> int (length xs) - 1" by simp
  with i have hi: "xs ! i \<le> int i" by simp
  from lo hi i show "xs ! i = map int [0..<length xs] ! i" by simp
qed

lemma classes_sorted:
  "sorted_wrt (<) (sort (remdups (filter (\<lambda>v. 0 \<le> v) (y::int list))))"
  by (simp add: strict_sorted_iff)

lemma classes_set:
  "set (sort (remdups (filter (\<lambda>v. 0 \<le> v) (y::int list)))) = {v \<in> set y. 0 \<le> v}"
  by auto

lemma classes_length:
  "length (sort (remdups (filter (\<lambda>v. 0 \<le> v) (y::int list)))) = card {v \<in> set y. 0 \<le> v}"
proof -
  have "card {v \<in> set y. 0 \<le> v} = card (set (remdups (filter (\<lambda>v. 0 \<le> v) y)))" 
    by (rule arg_cong [where f=card]) auto
  also have "\<dots> = length (remdups (filter (\<lambda>v. 0 \<le> v) y))"
    by (rule distinct_card) simp
  finally show ?thesis by simp
qed

lemma classes_eq_sorted_list:
  "sort (remdups (filter (\<lambda>v. 0 \<le> v) (y::int list))) = sorted_list_of_set {v \<in> set y. 0 \<le> v}"
proof -
  have "sorted_list_of_set {v \<in> set y. 0 \<le> v} = sorted_list_of_set (set (filter (\<lambda>v. 0 \<le> v) y))"
    by (rule arg_cong [where f = sorted_list_of_set]) auto
  also have "\<dots> = sort (remdups (filter (\<lambda>v. 0 \<le> v) y))"
    by (rule sorted_list_of_set_sort_remdups)
  finally show ?thesis by simp
qed

text \<open>
  C6, amended. For texts \<open>X\<close> and integer labels \<open>y\<close> of the same length: with fewer than
  two distinct non-negative labels \<open>fit\<close> raises the error "too few classes"; when the
  distinct non-negative labels are exactly \<open>0, ..., k-1\<close> for some \<open>k \<ge> 2\<close>, \<open>fit\<close> accepts
  them and sets \<open>n_classes_ = k\<close>; otherwise it raises the error that names the expected
  list \<open>[0, ..., k-1]\<close>, \<open>k\<close> the number of distinct non-negative labels, and the actual
  sorted list of classes.
\<close>

theorem fit_check_classes_cases:
  assumes "length y = length X"
  shows "(card {v \<in> set y. 0 \<le> v} < 2 \<longrightarrow> fit_check_classes X y = Inl TooFewClasses)
    \<and> (\<forall>k \<ge> 2. {v \<in> set y. 0 \<le> v} = int ` {0..<k} \<longrightarrow> fit_check_classes X y = Inr k)
    \<and> (card {v \<in> set y. 0 \<le> v} \<ge> 2 \<and> (\<forall>k. {v \<in> set y. 0 \<le> v} \<noteq> int ` {0..<k}) \<longrightarrow>
         fit_check_classes X y
           = Inl (NotOrdered (map int [0..<card {v \<in> set y. 0 \<le> v}])
                             (sorted_list_of_set {v \<in> set y. 0 \<le> v})))"
proof -
  let ?S = "{v \<in> set y. 0 \<le> v}"
  let ?cs = "sort (remdups (filter (\<lambda>v. 0 \<le> v) y))"
  have len: "length (remdups (filter (\<lambda>v. 0 \<le> v) y)) = card ?S"
    using classes_length [of y] by simp
  have chk: "check_Xy X y = (if card ?S < 2 then Inl TooFewClasses else Inr ?cs)"
    using assms by (simp add: check_Xy_def Let_def len)
  have A: "card ?S < 2 \<longrightarrow> fit_check_classes X y = Inl TooFewClasses"
    by (simp add: fit_check_classes_def chk)
  have B: "fit_check_classes X y = Inr k" if k: "k \<ge> 2" and S: "?S = int ` {0..<k}" for k
  proof -
    have "set ?cs = set (map int [0..<k])" using S classes_set [of y] by simp
    moreover have "sorted ?cs" "distinct ?cs" by simp_all
    moreover have "sorted (map int [0..<k])" "distinct (map int [0..<k])"
      by (simp_all add: sorted_map distinct_map inj_on_def sorted_wrt_iff_nth_less)
    ultimately have eq: "?cs = map int [0..<k]"
      by (metis sorted_distinct_set_unique)
    have "card ?S = k" using S by (simp add: card_image)
    then show ?thesis
      using k unfolding fit_check_classes_def chk eq
      by (simp add: hd_map last_map)
  qed
  have C: "fit_check_classes X y = Inl (NotOrdered (map int [0..<card ?S]) (sorted_list_of_set ?S))"
    if c: "card ?S \<ge> 2" and n: "\<forall>k. ?S \<noteq> int ` {0..<k}"
  proof -
    have ne: "?cs \<noteq> []"
      by (metis c classes_length list.size(3) not_numeral_le_zero)
    have "hd ?cs \<noteq> 0 \<or> last ?cs \<noteq> int (length ?cs) - 1"
    proof (rule ccontr)
      assume "\<not> ?thesis"
      then have "?cs = map int [0..<length ?cs]"
        using contiguous_from_ends [OF classes_sorted ne] by simp
      then have "set ?cs = int ` {0..<length ?cs}"
        by (metis image_set set_upt)
      with n classes_set [of y] show False by metis
    qed
    then show ?thesis
      using c unfolding fit_check_classes_def chk
      by (simp add: classes_length classes_eq_sorted_list del: sort_key_simps)
  qed
  from A B C show ?thesis by blast
qed


theorem fit_check_classes_cases_witness:
  "fit_check_classes [''a'', ''b'', ''c'', ''d''] [0, 2, 1, - 1] = Inr 3
   \<and> fit_check_classes [''a'', ''b'', ''c''] [0, 0, - 1] = Inl TooFewClasses
   \<and> fit_check_classes [''a'', ''b'', ''c'', ''d'', ''e''] [0, 2, 1, - 1, 4]
       = Inl (NotOrdered [0, 1, 2, 3] [0, 1, 2, 4])"
proof -
  have S1: "{v \<in> set [0, 2, 1, - 1 :: int]. 0 \<le> v} = int ` {0..<3}"
    by (auto simp: image_iff)
  have S2: "{v \<in> set [0, 0, - 1 :: int]. 0 \<le> v} = {0}"
    by auto
  have S3: "{v \<in> set [0, 2, 1, - 1, 4 :: int]. 0 \<le> v} = {0, 1, 2, 4}"
    by auto
  have n3: "\<forall>k. {0, 1, 2, 4 :: int} \<noteq> int ` {0..<k}"
  proof (intro allI notI)
    fix k assume e: "{0, 1, 2, 4 :: int} = int ` {0..<k}"
    then have "4 \<in> int ` {0..<k}" by blast
    then have "4 < k" by auto
    then have "int 3 \<in> int ` {0..<k}" by simp
    then have "(3::int) \<in> {0, 1, 2, 4}" unfolding e by simp
    then show False by simp
  qed
  let ?y = "[0, 2, 1, - 1, 4 :: int]"
  let ?X = "[''a'', ''b'', ''c'', ''d'', ''e'']"
  have c3: "card {v \<in> set ?y. 0 \<le> v} = 4"
    by (subst classes_length [symmetric]) simp
  have sl: "sorted_list_of_set {v \<in> set ?y. 0 \<le> v} = [0, 1, 2, 4]"
    by (subst classes_eq_sorted_list [symmetric]) simp
  have len: "length ?y = length ?X" by simp
  from fit_check_classes_cases [of "[0, 2, 1, - 1]" "[''a'', ''b'', ''c'', ''d'']"] S1
  have A: "fit_check_classes [''a'', ''b'', ''c'', ''d''] [0, 2, 1, - 1] = Inr 3" by simp
  from fit_check_classes_cases [of "[0, 0, - 1]" "[''a'', ''b'', ''c'']"]
  have B: "fit_check_classes [''a'', ''b'', ''c''] [0, 0, - 1] = Inl TooFewClasses"
    unfolding S2 by simp
  have "2 \<le> card {v \<in> set ?y. 0 \<le> v} \<and> (\<forall>k. {v \<in> set ?y. 0 \<le> v} \<noteq> int ` {0..<k})"
    unfolding c3 unfolding S3 using n3 by simp
  with fit_check_classes_cases [OF len]
  have "fit_check_classes ?X ?y = Inl (NotOrdered (map int [0..<card {v \<in> set ?y. 0 \<le> v}])
                             (sorted_list_of_set {v \<in> set ?y. 0 \<le> v}))"
    by blast
  then have C: "fit_check_classes ?X ?y = Inl (NotOrdered [0, 1, 2, 3] [0, 1, 2, 4])"
    unfolding c3 sl by (simp add: upt_rec)
  from A B C show ?thesis by simp
qed

lemma fit_check_classes_not_ordered_at:
  "fit_check_classes [''a'', ''b'', ''c'', ''d'', ''e''] [0, 2, 1, - 1, 4]
     = Inl (NotOrdered [0, 1, 2, 3] [0, 1, 2, 4])"
  by (simp add: fit_check_classes_def check_Xy_def upt_rec)

text \<open>
  C6, the claim as stated fails: with fewer than two distinct non-negative labels the
  labels are not the contiguous set of at least two classes, yet the error raised is the
  one of \<open>check_Xy\<close> ("There are too few classes"), which names neither the expected nor
  the actual list of classes.
\<close>

theorem fit_check_classes_too_few_counterexample:
  "fit_check_classes [''a'', ''b'', ''c''] [0, 0, - 1] = Inl TooFewClasses
   \<and> fit_check_classes [''a'', ''b'', ''c''] [0, 0, - 1] \<noteq> Inl (NotOrdered [0] [0])"
  by (simp add: fit_check_classes_def check_Xy_def)

section \<open>Properties of the training loop\<close>

lemma names_delete: "map fst (AList.delete k fs) = filter (\<lambda>n. n \<noteq> k) (map fst fs)"
  by (induction fs) (auto simp: AList.delete_eq)

lemma names_save_model:
  "set (map fst (save_model sfx n w fs)) = set (map fst fs) \<union> (\<lambda>s. n @ s) ` set sfx"
  unfolding save_model_def
proof (induction sfx arbitrary: fs)
  case Nil
  then show ?case by simp
next
  case (Cons s sfx)
  have "set (map fst (AList.update (n @ s) w fs)) = insert (n @ s) (set (map fst fs))"
    using AList.dom_update [of "n @ s" w fs] by simp
  with Cons [of "AList.update (n @ s) w fs"] show ?case by auto
qed

lemma distinct_save_model:
  "distinct (map fst fs) \<Longrightarrow> distinct (map fst (save_model sfx n w fs))"
  unfolding save_model_def
  by (induction sfx arbitrary: fs) (simp_all add: AList.distinct_update)

lemma dir_ok_save_model:
  assumes "\<forall>s \<in> set sfx. s \<noteq> []" and "dir_ok tmp fs"
  shows "dir_ok tmp (save_model sfx tmp w fs)"
  using assms by (auto simp: dir_ok_def names_save_model distinct_save_model simp del: set_map)

lemma epoch_loop_dir_ok:
  assumes "\<forall>s \<in> set sfx. s \<noteq> []"
  shows "dir_ok tmp (files st) \<Longrightarrow>
         dir_ok tmp (files (snd (epoch_loop train quality sfx tmp p epochs st)))"
proof (induction epochs arbitrary: st)
  case Nil
  then show ?case by simp
next
  case (Cons epoch epochs)
  note ok = dir_ok_save_model [OF assms Cons.prems]
  show ?case
    using Cons.prems Cons.IH ok
    by (auto simp: Let_def split: sum.splits option.splits)
qed

lemma remove_all_ok:
  "distinct xs \<Longrightarrow> set xs \<subseteq> set (map fst fs) \<Longrightarrow>
   \<exists>fs'. remove_all xs fs = (None, fs') \<and> map fst fs' = filter (\<lambda>n. n \<notin> set xs) (map fst fs)"
proof (induction xs arbitrary: fs)
  case Nil
  then show ?case by simp
next
  case (Cons x xs)
  from Cons.prems have rm: "os_remove x fs = Inr (AList.delete x fs)"
    by (simp add: os_remove_def)
  have sub: "set xs \<subseteq> set (map fst (AList.delete x fs))"
    using Cons.prems by (auto simp: names_delete simp del: set_map)
  from Cons.prems have "distinct xs" by simp
  from Cons.IH [OF this sub] obtain fs' where
    r: "remove_all xs (AList.delete x fs) = (None, fs')"
    and n: "map fst fs' = filter (\<lambda>n. n \<notin> set xs) (map fst (AList.delete x fs))"
    by blast
  have "map fst fs' = filter (\<lambda>n. n \<notin> set (x # xs)) (map fst fs)"
    unfolding n names_delete by (auto intro: filter_cong)
  with rm r show ?case by simp
qed

lemma cleanup_ok:
  assumes "dir_ok tmp fs"
  shows "\<exists>fs'. remove_all (find_all_model_files tmp fs) fs = (None, fs')
           \<and> map fst fs' = filter (\<lambda>cur. \<not> sublist (lower tmp) (lower cur)) (map fst fs)"
proof -
  let ?found = "filter (\<lambda>cur. sublist (lower tmp) (lower cur)) (map fst fs)"
  from assms have f: "find_all_model_files tmp fs = sort ?found"
    by (simp add: find_all_model_files_def dir_ok_def)
  from assms have d: "distinct (sort ?found)" by (simp add: dir_ok_def)
  have s: "set (sort ?found) \<subseteq> set (map fst fs)" by auto
  from remove_all_ok [OF d s] obtain fs' where
    r: "remove_all (sort ?found) fs = (None, fs')"
    and n: "map fst fs' = filter (\<lambda>n. n \<notin> set (sort ?found)) (map fst fs)"
    by blast
  have "map fst fs' = filter (\<lambda>cur. \<not> sublist (lower tmp) (lower cur)) (map fst fs)"
    unfolding n by (auto intro: filter_cong)
  with r f show ?thesis by simp
qed

lemma checkpoint_name_matches: "sublist (lower tmp) (lower (tmp @ s))"
  by (simp add: lower_def)

text \<open>
  C8. However the epoch loop of \<open>fit\<close> ends (all epochs done, early stopping, or an
  exception of the training), the \<open>finally\<close> block leaves no file whose name contains the
  temporary model name: every checkpoint file \<open>tmp + suffix\<close> is deleted, the removal itself
  raises nothing, and the exception of the loop, if any, is the one that \<open>fit\<close> re-raises.
  The directory is one with distinct names in which the temporary name itself is not a
  file, and the saver writes only files with a non-empty suffix.
\<close>

theorem run_epochs_removes_checkpoints:
  assumes "distinct (map fst fs)" and "tmp \<notin> set (map fst fs)" and "\<forall>s \<in> set sfx. s \<noteq> []"
  shows "filter (\<lambda>cur. sublist (lower tmp) (lower cur))
           (map fst (files (snd (run_epochs train quality sfx tmp p n w fs)))) = []
       \<and> (\<forall>s. tmp @ s \<notin> set (map fst (files (snd (run_epochs train quality sfx tmp p n w fs)))))
       \<and> fst (run_epochs train quality sfx tmp p n w fs)
           = fst (epoch_loop train quality sfx tmp p [0..<n]
                   \<lparr>weights = w, files = fs, best_acc = None, n_epochs_without_improving = 0\<rparr>)"
proof -
  let ?st0 = "\<lparr>weights = w, files = fs, best_acc = None, n_epochs_without_improving = 0\<rparr>"
  obtain exc st where l: "epoch_loop train quality sfx tmp p [0..<n] ?st0 = (exc, st)"
    by (cases "epoch_loop train quality sfx tmp p [0..<n] ?st0")
  from assms(1,2) have "dir_ok tmp (files ?st0)" by (simp add: dir_ok_def)
  from epoch_loop_dir_ok [OF assms(3) this, of train quality p "[0..<n]"] l
  have ok: "dir_ok tmp (files st)" by simp
  from cleanup_ok [OF ok] obtain fs' where
    r: "remove_all (find_all_model_files tmp (files st)) (files st) = (None, fs')"
    and nm: "map fst fs' = filter (\<lambda>cur. \<not> sublist (lower tmp) (lower cur)) (map fst (files st))"
    by blast
  have run: "run_epochs train quality sfx tmp p n w fs = (exc, st\<lparr>files := fs'\<rparr>)"
    by (simp add: run_epochs_def l r)
  have A: "filter (\<lambda>cur. sublist (lower tmp) (lower cur)) (map fst fs') = []"
    unfolding nm by (simp add: filter_empty_conv)
  have B: "tmp @ s \<notin> set (map fst fs')" for s
    unfolding nm using checkpoint_name_matches [of tmp s] by simp
  from A B show ?thesis by (simp add: run l del: set_map)
qed


theorem run_epochs_removes_checkpoints_witness:
  "filter (\<lambda>cur. sublist (lower ''tmpbert_cls.ckpt'') (lower cur))
     (map fst (files (snd (run_epochs (\<lambda>epoch w. if epoch = 1 then Inl TrainingError else Inr (w + 1))
        (\<lambda>epoch w. 1 / 2) [''.index'', ''.meta''] ''tmpbert_cls.ckpt'' 3 10 (0::nat)
        [(''keep.txt'', 7)])))) = []
   \<and> fst (run_epochs (\<lambda>epoch w. if epoch = 1 then Inl TrainingError else Inr (w + 1))
        (\<lambda>epoch w. 1 / 2) [''.index'', ''.meta''] ''tmpbert_cls.ckpt'' 3 10 (0::nat)
        [(''keep.txt'', 7)]) = Some TrainingError"
proof -
  have e: "fst (epoch_loop (\<lambda>epoch w. if epoch = 1 then Inl TrainingError else Inr (w + 1))
        (\<lambda>epoch w. 1 / 2) [''.index'', ''.meta''] ''tmpbert_cls.ckpt'' 3 [0..<10]
        \<lparr>weights = 0::nat, files = [(''keep.txt'', 7)], best_acc = None,
          n_epochs_without_improving = 0\<rparr>) = Some TrainingError"
    by (simp add: upt_rec save_model_def load_model_def)
  have h: "distinct (map fst [(''keep.txt'', 7::nat)])"
    "''tmpbert_cls.ckpt'' \<notin> set (map fst [(''keep.txt'', 7::nat)])"
    "\<forall>s \<in> set [''.index'', ''.meta'']. s \<noteq> []"
    by simp_all
  from run_epochs_removes_checkpoints [OF h] e show ?thesis by simp
qed

text \<open>
  Where the temporary name itself is a file, \<open>find_all_model_files\<close> lists it twice and the
  second \<open>os.remove\<close> raises, which is why the property above is stated for directories
  without such a file.
\<close>

lemma cleanup_fails_when_name_is_file:
  "remove_all (find_all_model_files ''t'' [(''t'', 0::nat), (''t.index'', 0)])
     [(''t'', 0), (''t.index'', 0)] = (Some FileNotFoundError, [(''t.index'', 0)])"
  by (simp add: find_all_model_files_def lower_def lower_char_def os_remove_def)

text \<open>
  When the loop ends without early stopping, after at least one epoch, the variables are
  those of the checkpoint.
\<close>

lemma epoch_loop_restores_without_early_stop:
  assumes "epoch_loop train quality sfx tmp p epochs st = (None, st')"
    and "n_epochs_without_improving st' < p"
    and "epochs = [] \<longrightarrow> load_model sfx tmp (files st) = Inr (weights st)"
  shows "load_model sfx tmp (files st') = Inr (weights st')"
  using assms
proof (induction epochs arbitrary: st)
  case Nil
  then show ?case by simp
next
  case (Cons epoch epochs)
  show ?case
    using Cons.prems(1,2)
    by (auto simp: Let_def split: sum.splits option.splits if_splits intro!: Cons.IH)
qed

text \<open>
  C7. The claim: the calibration at the end of \<open>fit\<close> runs on the best checkpoint. The
  code reloads the checkpoint at the end of every epoch that does not stop the loop, but
  the \<open>break\<close> of early stopping comes before the reload: with \<open>patience = 1\<close>, an epoch
  of quality 0.5 followed by one of quality 0.4, the loop ends with the variables of the
  second epoch (2) while the checkpoint holds those of the first (1).
\<close>

theorem epoch_loop_early_stop_keeps_last_weights:
  "epoch_loop (\<lambda>epoch w. Inr (w + 1)) (\<lambda>epoch w. if w = 1 then 1 / 2 else 2 / 5)
      [''.index''] ''tmpbert_cls.ckpt'' 1 [0..<3]
      \<lparr>weights = 0::nat, files = [], best_acc = None, n_epochs_without_improving = 0\<rparr>
    = (None, \<lparr>weights = 2, files = [(''tmpbert_cls.ckpt.index'', 1)], best_acc = Some (1 / 2),
              n_epochs_without_improving = 1\<rparr>)
   \<and> load_model [''.index''] ''tmpbert_cls.ckpt'' [(''tmpbert_cls.ckpt.index'', 1::nat)] = Inr 1"
  by (simp add: upt_rec save_model_def load_model_def)

theorem epoch_loop_early_stop_keeps_last_weights_witness:
  "weights (snd (epoch_loop (\<lambda>epoch w. Inr (w + 1)) (\<lambda>epoch w. if w = 1 then 1 / 2 else 2 / 5)
      [''.index''] ''tmpbert_cls.ckpt'' 1 [0..<3]
      \<lparr>weights = 0::nat, files = [], best_acc = None, n_epochs_without_improving = 0\<rparr>)) = 2
   \<and> load_model [''.index''] ''tmpbert_cls.ckpt'' [(''tmpbert_cls.ckpt.index'', 1::nat)] \<noteq> Inr 2"
  using epoch_loop_early_stop_keeps_last_weights by simp

section \<open>Properties of the serialization\<close>

lemma params_of_dict_checked:
  assumes "params_of_dict kwargs = Inr c"
  shows "check_params c = Inr () \<and> certainty_threshold' c = None"
  using assms
  by (auto simp: params_of_dict_def bind_err_def Let_def split: sum.splits)

lemma check_params_fitted_fields:
  "check_params (c\<lparr>certainty_threshold' := t\<rparr>) = check_params c"
  "check_params (c\<lparr>n_classes' := n\<rparr>) = check_params c"
  "check_params (c\<lparr>tokenizer' := tok\<rparr>) = check_params c"
  "check_params (c\<lparr>sess' := w\<rparr>) = check_params c"
  "check_params (c\<lparr>random_seed := r\<rparr>) = check_params c"
  by (simp_all add: check_params_def)

lemma load_all_result:
  assumes "load_all sfx now old params fs = (Inr c', fs')"
  shows "certainty_threshold' c' = old \<and> check_params c' = Inr ()"
proof -
  from assms obtain c0 where c0: "params_of_dict params = Inr c0"
    by (auto simp: load_all_def split: sum.splits)
  note chk = params_of_dict_checked [OF c0]
  show ?thesis
    using assms chk unfolding load_all_def c0
    by (auto simp: Let_def check_params_fitted_fields
        split: if_splits option.splits pyval.splits sum.splits prod.splits)
qed

lemma demo_dump_all:
  "dump_all [''.index'', ''.meta''] ''tmpbert_cls.ckpt'' demo_classifier []
     = (Inr (get_params demo_classifier
              @ [(''n_classes_'', VInt 2), (''tokenizer_'', VTokenizer demo_tokenizer),
                 (''model_name_'', VStr ''tmpbert_cls.ckpt''),
                 (''model.tmpbert_cls.ckpt.index'', VBytes 0),
                 (''model.tmpbert_cls.ckpt.meta'', VBytes 0)]), [])"
  by (simp add: dump_all_def is_fitted_def demo_classifier_def get_params_def save_model_def
      find_all_model_files_def lower_def lower_char_def os_remove_def)


lemma demo_model_files:
  "model_files_of (get_params demo_classifier
              @ [(''n_classes_'', VInt 2), (''tokenizer_'', VTokenizer demo_tokenizer),
                 (''model_name_'', VStr ''tmpbert_cls.ckpt''),
                 (''model.tmpbert_cls.ckpt.index'', VBytes (0::nat)),
                 (''model.tmpbert_cls.ckpt.meta'', VBytes 0)])
   = [''tmpbert_cls.ckpt.index'', ''tmpbert_cls.ckpt.meta'']"
  by (simp add: model_files_of_def get_params_def strip_def is_space_def)

lemma demo_params_of_dict:
  "params_of_dict (get_params demo_classifier
              @ [(''n_classes_'', VInt 2), (''tokenizer_'', VTokenizer demo_tokenizer),
                 (''model_name_'', VStr ''tmpbert_cls.ckpt''),
                 (''model.tmpbert_cls.ckpt.index'', VBytes (0::nat)),
                 (''model.tmpbert_cls.ckpt.meta'', VBytes 0)])
   = Inr (demo_classifier\<lparr>n_classes' := None, tokenizer' := None, sess' := None,
                           certainty_threshold' := None\<rparr>)"
  by (simp add: params_of_dict_def get_params_def demo_classifier_def bind_err_def
      get_int_def get_float_def get_bool_def get_tuple_def get_opt_int_def get_opt_str_def
      check_params_def)

lemma demo_load_all:
  "load_all [''.index'', ''.meta''] 0 None
     (get_params demo_classifier
              @ [(''n_classes_'', VInt 2), (''tokenizer_'', VTokenizer demo_tokenizer),
                 (''model_name_'', VStr ''tmpbert_cls.ckpt''),
                 (''model.tmpbert_cls.ckpt.index'', VBytes (0::nat)),
                 (''model.tmpbert_cls.ckpt.meta'', VBytes 0)]) []
   = (Inr (demo_classifier\<lparr>certainty_threshold' := None\<rparr>), [])"
  unfolding load_all_def demo_params_of_dict demo_model_files
  by (simp add: get_params_def demo_classifier_def load_model_def remove_existing_def)

text \<open>
  C2. The claim: an estimator restored from the state that \<open>dump_all\<close> returns predicts
  the same class ids and has the same \<open>certainty_threshold_\<close>. The state dictionary has no
  entry for \<open>certainty_threshold_\<close> and \<open>load_all\<close> never assigns the attribute: the object
  that unpickling creates from the state of any estimator has no certainty threshold, so
  \<open>is_fitted\<close> fails and \<open>predict\<close> raises \<open>NotFittedError\<close>.
\<close>

theorem load_all_dump_all_not_fitted:
  assumes "dump_all sfx model_file_name c fs = (Inr params, fs1)"
    and "load_all sfx now None params fs1 = (Inr c', fs2)"
  shows "certainty_threshold' c' = None \<and> predict net rng c' X = Inl NotFittedError"
proof -
  from load_all_result [OF assms(2)]
  have t: "certainty_threshold' c' = None" and chk: "check_params c' = Inr ()" by simp_all
  from t have "is_fitted c' = Inl NotFittedError" by (simp add: is_fitted_def)
  with chk have "predict_proba net rng c' X = Inl NotFittedError"
    by (simp add: predict_proba_def)
  with t show ?thesis by (simp add: predict_def)
qed

theorem load_all_dump_all_not_fitted_witness:
  "predict demo_net (\<lambda>n. [0..<n]) demo_classifier [''a''] = Inr [- 1]
   \<and> fst (dump_all [''.index'', ''.meta''] ''tmpbert_cls.ckpt'' demo_classifier [])
       = Inr (get_params demo_classifier
              @ [(''n_classes_'', VInt 2), (''tokenizer_'', VTokenizer demo_tokenizer),
                 (''model_name_'', VStr ''tmpbert_cls.ckpt''),
                 (''model.tmpbert_cls.ckpt.index'', VBytes 0),
                 (''model.tmpbert_cls.ckpt.meta'', VBytes 0)])
   \<and> fst (load_all [''.index'', ''.meta''] 0 None
     (get_params demo_classifier
              @ [(''n_classes_'', VInt 2), (''tokenizer_'', VTokenizer demo_tokenizer),
                 (''model_name_'', VStr ''tmpbert_cls.ckpt''),
                 (''model.tmpbert_cls.ckpt.index'', VBytes (0::nat)),
                 (''model.tmpbert_cls.ckpt.meta'', VBytes 0)]) [])
       = Inr (demo_classifier\<lparr>certainty_threshold' := None\<rparr>)
   \<and> predict demo_net (\<lambda>n. [0..<n]) (demo_classifier\<lparr>certainty_threshold' := None\<rparr>) [''a'']
       = Inl NotFittedError"
  using load_all_dump_all_not_fitted [OF demo_dump_all demo_load_all, of demo_net "\<lambda>n. [0..<n]" "[''a'']"]
    demo_predict demo_dump_all demo_load_all
  by simp

section \<open>Properties of the training loss\<close>

lemma sum_exp_pos: "logits \<noteq> [] \<Longrightarrow> 0 < (\<Sum>l' \<leftarrow> logits. exp (l'::real))"
proof (induction logits)
  case Nil
  then show ?case by simp
next
  case (Cons l logits)
  have "0 \<le> (\<Sum>l' \<leftarrow> logits. exp l')"
    by (rule sum_list_nonneg) auto
  moreover have "0 < exp l" by simp
  ultimately have "0 < exp l + (\<Sum>l' \<leftarrow> logits. exp l')"
    by (rule add_pos_nonneg [rotated])
  then show ?case by simp
qed

lemma categorical_log_prob_ln:
  assumes "y < length logits"
  shows "categorical_log_prob logits y = ln (categorical_probs logits ! y)"
proof -
  from assms have "logits \<noteq> []" by auto
  then have S: "0 < (\<Sum>l' \<leftarrow> logits. exp l')" by (rule sum_exp_pos)
  from assms have "categorical_probs logits ! y = exp (logits ! y) / (\<Sum>l' \<leftarrow> logits. exp l')"
    by (simp add: categorical_probs_def)
  then show ?thesis
    using S by (simp add: categorical_log_prob_def ln_div)
qed

text \<open>
  C9. The loss that the optimizer minimizes at every step is the negative mean, over the
  batch, of the logarithm of the probability that the categorical output distribution gives
  to the true label, plus the sum of the Kullback-Leibler terms of the layers; it exceeds
  the plain cross-entropy by exactly that sum. The labels of the batch are class indices
  of the logits.
\<close>

theorem elbo_loss_is_nll_plus_kl:
  assumes "\<forall>(l, y) \<in> set (zip logits y_ph). y < length l"
  shows "elbo_loss logits y_ph losses
           = - ((\<Sum>(l, y) \<leftarrow> zip logits y_ph. ln (categorical_probs l ! y))
                  / real (length (zip logits y_ph)))
             + sum_list losses
       \<and> elbo_loss logits y_ph losses - neg_log_likelihood logits y_ph = sum_list losses"
proof -
  have "map (\<lambda>(l, y). categorical_log_prob l y) (zip logits y_ph)
          = map (\<lambda>(l, y). ln (categorical_probs l ! y)) (zip logits y_ph)"
    using assms by (intro map_cong) (auto simp: categorical_log_prob_ln)
  then have "(\<Sum>(l, y) \<leftarrow> zip logits y_ph. categorical_log_prob l y)
          = (\<Sum>(l, y) \<leftarrow> zip logits y_ph. ln (categorical_probs l ! y))"
    by (rule arg_cong [where f = sum_list])
  then have "elbo_loss logits y_ph losses
           = - ((\<Sum>(l, y) \<leftarrow> zip logits y_ph. ln (categorical_probs l ! y))
                  / real (length (zip logits y_ph)))
             + sum_list losses"
    unfolding elbo_loss_def neg_log_likelihood_def Let_def by (simp only:)
  moreover have "elbo_loss logits y_ph losses - neg_log_likelihood logits y_ph = sum_list losses"
    by (simp add: elbo_loss_def)
  ultimately show ?thesis by (rule conjI)
qed

theorem elbo_loss_is_nll_plus_kl_witness:
  "elbo_loss [[0, 0]] [1] [1 / 2, 1 / 4] = - ln (1 / 2) + 3 / 4
   \<and> categorical_probs [0, 0] = [1 / 2, 1 / 2]"
proof -
  have p: "categorical_probs [0, 0] = [1 / 2, 1 / 2]"
    by (simp add: categorical_probs_def)
  have h: "\<forall>(l, y) \<in> set (zip [[0, 0 :: real]] [1 :: nat]). y < length l" by simp
  from elbo_loss_is_nll_plus_kl [OF h, of "[1 / 2, 1 / 4]"] p show ?thesis by simp
qed

section \<open>Fitted estimators return\<close>

text \<open>
  For every estimator with valid parameters that \<open>is_fitted\<close> accepts, and every list of
  texts, \<open>predict_proba\<close> returns a matrix with one row for each text and one column for
  each class, and \<open>predict\<close> returns one class id for each text: the properties of the
  predictor above are not about a function that fails.
\<close>

lemma tokenize_one_lengths:
  "length (fst (tokenize_one tok s)) = MAX_SEQ_LENGTH"
  "length (fst (snd (tokenize_one tok s))) = MAX_SEQ_LENGTH"
  "length (snd (snd (tokenize_one tok s))) = MAX_SEQ_LENGTH"
  by (simp_all add: tokenize_one_def Let_def MAX_SEQ_LENGTH_def)

lemma tokenize_all_ok: "channels_ok (length X) (tokenize_all tok X)"
  by (auto simp: channels_ok_def tokenize_all_def Let_def tokenize_one_lengths)

lemma pad_multiple:
  fixes n :: nat and bs :: int
  assumes "0 < bs" and "int n mod bs \<noteq> 0"
  shows "(n + nat (bs - int n mod bs)) mod nat bs = 0" and "0 \<le> bs - int n mod bs"
proof -
  have lt: "int n mod bs < bs" using assms(1) by simp
  then show "0 \<le> bs - int n mod bs" by simp
  have a: "int n - int n mod bs = bs * (int n div bs)" by (rule minus_mod_eq_mult_div)
  have "int (n + nat (bs - int n mod bs)) = int n + (bs - int n mod bs)"
    using lt by simp
  also have "\<dots> = (int n - int n mod bs) + bs" by simp
  also have "\<dots> = bs * (int n div bs) + bs" by (simp only: a)
  finally have "int (n + nat (bs - int n mod bs)) mod bs = 0" by simp
  then have "int ((n + nat (bs - int n mod bs)) mod nat bs) = 0"
    using assms(1) by (simp add: zmod_int)
  then show "(n + nat (bs - int n mod bs)) mod nat bs = 0" by simp
qed


lemma extend_Xy_channels_ok:
  assumes "channels_ok n X" and "0 < bs"
  shows "\<exists>X' n'. extend_Xy bs rng X None False = Inr (X', None) \<and> channels_ok n' X'
           \<and> n' mod nat bs = 0 \<and> n \<le> n'"
proof -
  from assms(1) obtain r0 r1 r2 where
    X: "X = [Arr2 MAX_SEQ_LENGTH r0, Arr2 MAX_SEQ_LENGTH r1, Arr2 MAX_SEQ_LENGTH r2]"
    and len: "length r0 = n" "length r1 = n" "length r2 = n"
    and rows: "\<forall>row \<in> set (r0 @ r1 @ r2). length row = MAX_SEQ_LENGTH"
    unfolding channels_ok_def by blast
  show ?thesis
  proof (cases "int n mod bs = 0")
    case True
    then have "extend_Xy bs rng X None False = Inr (X, None)"
      using assms(2) X len by (simp add: extend_Xy_def)
    moreover from True have "n mod nat bs = 0"
      using assms(2) by (metis int_nat_eq less_le_not_le nat_int of_nat_0 zmod_int)
    ultimately show ?thesis using assms(1) by (intro exI [of _ X] exI [of _ n]) simp
  next
    case False
    then have n0: "n \<noteq> 0" by (cases "n = 0") simp_all
    let ?k = "bs - int n mod bs"
    note pm = pad_multiple [OF assms(2) False]
    have ne: "r0 \<noteq> []" "r1 \<noteq> []" "r2 \<noteq> []" using len n0 by auto
    have last_len: "length (last r0) = MAX_SEQ_LENGTH" "length (last r1) = MAX_SEQ_LENGTH"
      "length (last r2) = MAX_SEQ_LENGTH"
      using rows ne by simp_all
    have e0: "extend_channel ?k (Arr2 MAX_SEQ_LENGTH r0)
                = Inr (Arr2 MAX_SEQ_LENGTH (r0 @ replicate (nat ?k) (last r0)))"
      by (rule extend_channel_pads [OF ne(1) last_len(1) pm(2)])
    have e1: "extend_channel ?k (Arr2 MAX_SEQ_LENGTH r1)
                = Inr (Arr2 MAX_SEQ_LENGTH (r1 @ replicate (nat ?k) (last r1)))"
      by (rule extend_channel_pads [OF ne(2) last_len(2) pm(2)])
    have e2: "extend_channel ?k (Arr2 MAX_SEQ_LENGTH r2)
                = Inr (Arr2 MAX_SEQ_LENGTH (r2 @ replicate (nat ?k) (last r2)))"
      by (rule extend_channel_pads [OF ne(3) last_len(3) pm(2)])
    let ?X' = "[Arr2 MAX_SEQ_LENGTH (r0 @ replicate (nat ?k) (last r0)),
                Arr2 MAX_SEQ_LENGTH (r1 @ replicate (nat ?k) (last r1)),
                Arr2 MAX_SEQ_LENGTH (r2 @ replicate (nat ?k) (last r2))]"
    have "extend_Xy bs rng X None False = Inr (?X', None)"
      using assms(2) False unfolding extend_Xy_def X
      by (simp add: len Let_def e0 e1 e2)
    moreover have "channels_ok (n + nat ?k) ?X'"
      unfolding channels_ok_def using len rows last_len by auto
    ultimately show ?thesis using pm(1) by (metis le_add1)
  qed
qed

lemma predict_batches_returns:
  assumes "channels_ok n X" and "0 < bs"
    and "\<forall>(lo, hi) \<in> set bounds. hi = lo + bs \<and> hi \<le> n"
    and "length probabilities = n" and "\<forall>row \<in> set probabilities. length row = ncls"
  shows "\<exists>P. predict_batches net w m bs ncls X bounds probabilities = Inr P \<and> length P = n
           \<and> (\<forall>row \<in> set P. length row = ncls)"
  using assms(3-5)
proof (induction bounds arbitrary: probabilities)
  case Nil
  then show ?case by simp
next
  case (Cons b bounds)
  obtain lo hi where b: "b = (lo, hi)" by (cases b)
  from Cons.prems(1) b have hi: "hi = lo + bs" "hi \<le> n" by auto
  from assms(1) obtain r0 r1 r2 where
    X: "X = [Arr2 MAX_SEQ_LENGTH r0, Arr2 MAX_SEQ_LENGTH r1, Arr2 MAX_SEQ_LENGTH r2]"
    and len: "length r0 = n"
    unfolding channels_ok_def by blast
  have feed: "fill_feed_dict (int bs) (map (slice_rows lo hi) X) = Inr (map (slice_rows lo hi) X)"
    using hi len unfolding X by (simp add: fill_feed_dict_def)
  let ?p = "take lo probabilities
              @ map (map to_int32) (mean_probs net w m bs ncls (map (slice_rows lo hi) X))
              @ drop hi probabilities"
  have l: "length ?p = n"
    using hi Cons.prems(2) by (simp add: mean_probs_def)
  have r: "\<forall>row \<in> set ?p. length row = ncls"
    using Cons.prems(3) by (auto simp: mean_probs_def dest: in_set_takeD in_set_dropD)
  from Cons.prems(1) have "\<forall>(lo, hi) \<in> set bounds. hi = lo + bs \<and> hi \<le> n" by simp
  from Cons.IH [OF this l r] feed b show ?case by simp
qed

lemma predict_proba_returns:
  assumes "check_params c = Inr ()" and "is_fitted c = Inr ()"
  shows "\<exists>P. predict_proba net rng c X = Inr P \<and> length P = length X
           \<and> (\<forall>row \<in> set P. Some (length row) = n_classes' c)"
proof -
  from assms(2) obtain tok ncls w where
    f: "tokenizer' c = Some tok" "n_classes' c = Some ncls" "sess' c = Some w"
    by (auto simp: is_fitted_def split: if_splits)
  from assms(1) have bs: "0 < batch_size c"
    by (auto simp: check_params_def split: if_splits)
  then have bs': "0 < nat (batch_size c)" by simp
  note tk = tokenize_all_ok [of X tok]
  from extend_Xy_channels_ok [OF tk bs, of rng] obtain X' n' where
    e: "extend_Xy (batch_size c) rng (tokenize_all tok X) None False = Inr (X', None)"
    and ok: "channels_ok n' X'" and m: "n' mod nat (batch_size c) = 0" and le: "length X \<le> n'"
    by (elim exE conjE)
  from ok have s': "shape0 (hd X') = n'" by (auto simp: channels_ok_def)
  from tk have s: "shape0 (hd (tokenize_all tok X)) = length X" by (auto simp: channels_ok_def)
  let ?bs = "nat (batch_size c)"
  let ?bounds = "map (\<lambda>iteration. (iteration * ?bs, iteration * ?bs + ?bs)) [0..<n' div ?bs]"
  have bnd: "\<forall>(lo, hi) \<in> set ?bounds. hi = lo + ?bs \<and> hi \<le> n'"
  proof -
    have "i * ?bs + ?bs \<le> n'" if "i < n' div ?bs" for i
    proof -
      from that have "Suc i \<le> n' div ?bs" by simp
      then have "Suc i * ?bs \<le> (n' div ?bs) * ?bs" by (rule mult_le_mono1)
      also have "\<dots> \<le> n'" by simp
      finally show ?thesis by (simp add: add.commute)
    qed
    then show ?thesis by auto
  qed
  from predict_batches_returns [OF ok bs' bnd, of "replicate n' (replicate ncls 0)" ncls net w
      "nat (num_monte_carlo c)"]
  obtain P where p: "predict_batches net w (nat (num_monte_carlo c)) ?bs ncls X' ?bounds
                       (replicate n' (replicate ncls 0)) = Inr P"
    and lp: "length P = n'" and rp: "\<forall>row \<in> set P. length row = ncls"
    by auto
  have "predict_proba net rng c X = Inr (take (length X) P)"
    using assms f e p by (simp add: predict_proba_def Let_def s s')
  moreover have "length (take (length X) P) = length X" using lp le by simp
  moreover have "\<forall>row \<in> set (take (length X) P). Some (length row) = n_classes' c"
    using rp f by (auto dest: in_set_takeD)
  ultimately show ?thesis by blast
qed

lemma predict_returns:
  assumes "check_params c = Inr ()" and "is_fitted c = Inr ()"
    and "n_classes' c = Some ncls" and "0 < ncls"
  shows "\<exists>classes. predict net rng c X = Inr classes \<and> length classes = length X"
proof -
  from predict_proba_returns [OF assms(1,2), of net rng X] assms(3) obtain P where
    p: "predict_proba net rng c X = Inr P" and l: "length P = length X"
    and r: "\<forall>row \<in> set P. length row = ncls"
    by auto
  from assms(2) obtain t where t: "certainty_threshold' c = Some t"
    by (auto simp: is_fitted_def split: if_splits)
  from r assms(4) have "\<not> (\<exists>row \<in> set P. row = [])" by auto
  then have "recognize t P = Inr (map (\<lambda>row. if real_of_int (row ! argmax row) < t then - 1
                           else int (argmax row)) P)"
    by (simp add: recognize_def)
  with p t l show ?thesis by (simp add: predict_def)
qed


end
